theory Spec2Isabelle
  imports Main "HOL-Library.Word"
begin

section \<open>Data model\<close>

text \<open>
  The records follow the protobuf messages that \<^verbatim>\<open>utils.py\<close> reads and writes.
  A float is kept as its 32-bit IEEE pattern (no arithmetic is ever done on it), an
  int64 field as a 64-bit word that Python reads as a signed integer, and a byte of
  \<^verbatim>\<open>raw_data\<close> as an 8-bit word.
\<close>

type_synonym byte = "8 word"
type_synonym float32 = "32 word"
type_synonym int64 = "64 word"

record TensorProto =
  name :: string
  data_type :: int
  dims :: "int list"
  float_data :: "float32 list"
  int64_data :: "int64 list"
  raw_data :: "byte list"

text \<open>The tags \<^verbatim>\<open>onnx.TensorProto.FLOAT\<close> and \<^verbatim>\<open>onnx.TensorProto.INT64\<close>.\<close>

definition FLOAT :: int where
  "FLOAT = 1"

definition INT64 :: int where
  "INT64 = 7"

text \<open>
  A dimension of a shape is a oneof (\<^verbatim>\<open>dim_value\<close>, \<^verbatim>\<open>dim_param\<close>, or neither)
  together with its denotation string.
\<close>

datatype dim_oneof = DimNotSet | DimValue int | DimParam string

record Dimension =
  dim_oneof :: dim_oneof
  denotation :: string

record ValueInfoProto =
  vi_name :: string
  elem_type :: int
  shape :: "Dimension list"

record NodeProto =
  op_type :: string
  node_input :: "string list"
  node_output :: "string list"

record GraphProto =
  node :: "NodeProto list"
  initializer :: "TensorProto list"
  value_info :: "ValueInfoProto list"
  graph_input :: "ValueInfoProto list"
  graph_output :: "ValueInfoProto list"

record ModelProto =
  graph :: GraphProto

text \<open>
  Python values that a decoded tensor holds, the two results of \<^verbatim>\<open>extract_data\<close>
  (a bare scalar, or a numpy array given by its shape and its elements in row-major
  order), and the exceptions of the code, named as Python names them.
\<close>

datatype pyval = PyFloat float32 | PyInt int

datatype extracted = Scalar pyval | NDArray "int list" "pyval list"

datatype error =
    KeyError
  | StructError
  | AssertionError
  | ValueError
  | IndexError
  | TypeError
  | InferenceError string

text \<open>The integers that protobuf accepts for an int64 field; it refuses the others.\<close>

definition int64_range :: "int \<Rightarrow> bool" where
  "int64_range n \<longleftrightarrow> - (2 ^ 63) \<le> n \<and> n < 2 ^ 63"

section \<open>Decoding a tensor: \<^verbatim>\<open>extract_data\<close>\<close>

text \<open>
  \<^verbatim>\<open>struct.iter_unpack(fmt, buf)\<close> refuses a buffer whose length is not a multiple of
  the item size and otherwise yields the items in order. The formats \<^verbatim>\<open>'f'\<close> and
  \<^verbatim>\<open>'q'\<close> have sizes 4 and 8; the byte order is the machine's, taken as little-endian.
\<close>

fun le_nat :: "byte list \<Rightarrow> nat" where
  "le_nat [] = 0"
| "le_nat (b # bs) = unat b + 256 * le_nat bs"

function chunks :: "nat \<Rightarrow> 'a list \<Rightarrow> 'a list list" where
  "chunks n xs = (if n = 0 \<or> xs = [] then [] else take n xs # chunks n (drop n xs))"
  by pat_completeness auto
termination
  by (relation "measure (\<lambda>(n, xs). length xs)") auto

declare chunks.simps [simp del]

definition iter_unpack :: "nat \<Rightarrow> byte list \<Rightarrow> error + byte list list" where
  "iter_unpack itemsize buf =
     (if length buf mod itemsize \<noteq> 0 then Inl StructError else Inr (chunks itemsize buf))"

definition unpack_f :: "byte list \<Rightarrow> pyval" where
  "unpack_f item = PyFloat (word_of_nat (le_nat item))"

definition unpack_q :: "byte list \<Rightarrow> pyval" where
  "unpack_q item = PyInt (sint (word_of_nat (le_nat item) :: int64))"

text \<open>
  Lines 173 to 183 of \<^verbatim>\<open>utils.py\<close>: the flat sequence \<^verbatim>\<open>ret\<close>. A repeated field is
  true when it is not empty; the dictionary lookup raises \<^verbatim>\<open>KeyError\<close> for any other tag.
\<close>

definition flat_data :: "TensorProto \<Rightarrow> error + pyval list" where
  "flat_data params =
     (if data_type params = FLOAT \<and> float_data params \<noteq> [] then
        Inr (map PyFloat (float_data params))
      else if data_type params = INT64 \<and> int64_data params \<noteq> [] then
        Inr (map (\<lambda>w. PyInt (sint w)) (int64_data params))
      else if data_type params = FLOAT then
        map_sum id (map unpack_f) (iter_unpack 4 (raw_data params))
      else if data_type params = INT64 then
        map_sum id (map unpack_q) (iter_unpack 8 (raw_data params))
      else Inl KeyError)"

text \<open>
  \<^verbatim>\<open>np.reshape(ret, dims)\<close>: a negative entry of \<^verbatim>\<open>dims\<close> stands for the one dimension
  numpy infers from the others; sizes are unbounded integers here.
\<close>

definition np_reshape :: "pyval list \<Rightarrow> int list \<Rightarrow> error + extracted" where
  "np_reshape ret newshape =
     (let unknown = filter (\<lambda>d. d < 0) newshape;
          s_known = prod_list (filter (\<lambda>d. 0 \<le> d) newshape);
          s_original = int (length ret)
      in if 1 < length unknown then Inl ValueError
         else if unknown = [] then
           (if s_original = s_known then Inr (NDArray newshape ret) else Inl ValueError)
         else if s_known = 0 \<or> s_original mod s_known \<noteq> 0 then Inl ValueError
         else Inr (NDArray (map (\<lambda>d. if d < 0 then s_original div s_known else d) newshape) ret))"

definition extract_data :: "TensorProto \<Rightarrow> error + extracted" where
  "extract_data params =
     (case flat_data params of
        Inl e \<Rightarrow> Inl e
      | Inr ret \<Rightarrow>
          if dims params = [] then
            (if length ret = 1 then Inr (Scalar (ret ! 0)) else Inl AssertionError)
          else np_reshape ret (dims params))"

section \<open>Graph lookups\<close>

text \<open>\<^verbatim>\<open>find_initializer\<close>: the first initializer of that name, or \<^verbatim>\<open>None\<close>.\<close>

definition find_initializer :: "ModelProto \<Rightarrow> string \<Rightarrow> TensorProto option" where
  "find_initializer onnx_model nm =
     find (\<lambda>i. name i = nm) (initializer (graph onnx_model))"

definition endswith :: "string \<Rightarrow> string \<Rightarrow> bool" where
  "endswith s suffix =
     (length suffix \<le> length s \<and> drop (length s - length suffix) s = suffix)"

definition find_tensor_value_info :: "ModelProto \<Rightarrow> string \<Rightarrow> error + ValueInfoProto" where
  "find_tensor_value_info onnx_model nm =
     (let nm' = (if endswith nm ''_before_merge''
                 then take (length nm - length ''_before_merge'') nm else nm);
          g = graph onnx_model
      in case find (\<lambda>v. vi_name v = nm')
                (value_info g @ graph_input g @ graph_output g) of
           Some v \<Rightarrow> Inr v
         | None \<Rightarrow> Inl ValueError)"

text \<open>
  The search as the specification words it: value-infos first, then graph inputs, then
  graph outputs, the first record of that name in the first collection that has one.
\<close>

definition search_in_order :: "GraphProto \<Rightarrow> string \<Rightarrow> ValueInfoProto option" where
  "search_in_order g key =
     (case find (\<lambda>v. vi_name v = key) (value_info g) of
        Some v \<Rightarrow> Some v
      | None \<Rightarrow>
          (case find (\<lambda>v. vi_name v = key) (graph_input g) of
             Some v \<Rightarrow> Some v
           | None \<Rightarrow> find (\<lambda>v. vi_name v = key) (graph_output g)))"

section \<open>Rewriting the batch dimension: \<^verbatim>\<open>change_batch_size\<close>\<close>

datatype batch_size = Symbolic string | Fixed int

text \<open>
  Line 210: the set of first outputs of the Constant nodes. \<^verbatim>\<open>node.output[0]\<close> raises
  \<^verbatim>\<open>IndexError\<close> on a node without outputs.
\<close>

fun constant_names :: "NodeProto list \<Rightarrow> error + string set" where
  "constant_names [] = Inr {}"
| "constant_names (n # ns) =
     (if op_type n = ''Constant'' then
        (case node_output n of
           [] \<Rightarrow> Inl IndexError
         | out # _ \<Rightarrow> map_sum id (insert out) (constant_names ns))
      else constant_names ns)"

text \<open>
  Lines 214 to 219, for one record that is not skipped. Writing \<^verbatim>\<open>dim_param\<close> or
  \<^verbatim>\<open>dim_value\<close> sets the oneof and leaves the denotation; protobuf refuses an integer
  outside the int64 range with \<^verbatim>\<open>ValueError\<close>.
\<close>

definition set_dim0 :: "batch_size \<Rightarrow> ValueInfoProto \<Rightarrow> error + ValueInfoProto" where
  "set_dim0 batch_size vi =
     (case shape vi of
        [] \<Rightarrow> Inr vi
      | d # ds \<Rightarrow>
          (case batch_size of
             Symbolic s \<Rightarrow> Inr (vi\<lparr>shape := d\<lparr>dim_oneof := DimParam s\<rparr> # ds\<rparr>)
           | Fixed n \<Rightarrow>
               if int64_range n
               then Inr (vi\<lparr>shape := d\<lparr>dim_oneof := DimValue n\<rparr> # ds\<rparr>)
               else Inl ValueError))"

text \<open>
  The loop of lines 211 to 219 over one collection: the error, if any, and the
  collection as the loop leaves it.
\<close>

fun rewrite_value_infos ::
  "string set \<Rightarrow> batch_size \<Rightarrow> ValueInfoProto list \<Rightarrow> error option \<times> ValueInfoProto list" where
  "rewrite_value_infos skip batch_size [] = (None, [])"
| "rewrite_value_infos skip batch_size (vi # vis) =
     (if vi_name vi \<in> skip then
        (case rewrite_value_infos skip batch_size vis of (r, vis') \<Rightarrow> (r, vi # vis'))
      else
        (case set_dim0 batch_size vi of
           Inl e \<Rightarrow> (Some e, vi # vis)
         | Inr vi' \<Rightarrow>
             (case rewrite_value_infos skip batch_size vis of (r, vis') \<Rightarrow> (r, vi' # vis'))))"

text \<open>The same loop over \<^verbatim>\<open>itertools.chain(g.value_info, g.input, g.output)\<close>.\<close>

definition rewrite_chain :: "string set \<Rightarrow> batch_size \<Rightarrow> GraphProto \<Rightarrow> error option \<times> GraphProto" where
  "rewrite_chain skip batch_size g =
     (case rewrite_value_infos skip batch_size (value_info g) of
        (Some e, vs) \<Rightarrow> (Some e, g\<lparr>value_info := vs\<rparr>)
      | (None, vs) \<Rightarrow>
          (case rewrite_value_infos skip batch_size (graph_input g) of
             (Some e, ins) \<Rightarrow> (Some e, g\<lparr>value_info := vs, graph_input := ins\<rparr>)
           | (None, ins) \<Rightarrow>
               (case rewrite_value_infos skip batch_size (graph_output g) of
                  (r, outs) \<Rightarrow>
                    (r, g\<lparr>value_info := vs, graph_input := ins, graph_output := outs\<rparr>))))"

text \<open>
  Line 231, \<^verbatim>\<open>new_shape_value[0] = 0\<close>: a bare Python number has no item assignment
  (\<^verbatim>\<open>TypeError\<close>); on an array the index 0 must exist along the first axis
  (\<^verbatim>\<open>IndexError\<close>), and the whole first sub-array, which for a one-dimensional array is
  its element 0, becomes zero of the array's element type. The result is the array's
  shape and elements.
\<close>

fun zero_like :: "pyval \<Rightarrow> pyval" where
  "zero_like (PyFloat _) = PyFloat 0"
| "zero_like (PyInt _) = PyInt 0"

definition setitem0 :: "extracted \<Rightarrow> error + int list \<times> pyval list" where
  "setitem0 new_shape_value =
     (case new_shape_value of
        Scalar _ \<Rightarrow> Inl TypeError
      | NDArray shp elems \<Rightarrow>
          (case shp of
             [] \<Rightarrow> Inl IndexError
           | d # ds \<Rightarrow>
               if d = 0 then Inl IndexError
               else Inr (shp, map zero_like (take (nat (prod_list ds)) elems)
                              @ drop (nat (prod_list ds)) elems)))"

text \<open>
  The conversion of a float to a 64-bit integer: the value of the IEEE single (sign in
  bit 31, exponent in bits 30 to 23, fraction in bits 22 to 0) with its fractional part
  dropped. A NaN, an infinity and a value outside the int64 range have no integer; the
  conversion is taken to give the smallest int64 for them, as it does on x86-64.
\<close>

definition float_to_int64 :: "float32 \<Rightarrow> int64" where
  "float_to_int64 w =
     (let b = unat w;
          e = (b div 2 ^ 23) mod 256;
          m = 2 ^ 23 + b mod 2 ^ 23;
          magnitude = (if e = 0 then 0
                       else if 150 \<le> e then m * 2 ^ (e - 150)
                       else m div 2 ^ (150 - e));
          v = (if b < 2 ^ 31 then int magnitude else - int magnitude)
      in if e = 255 \<or> \<not> int64_range v then word_of_int (- (2 ^ 63)) else word_of_int v)"

text \<open>A Python value as it reads once it is stored as a 64-bit integer.\<close>

fun astype_int64 :: "pyval \<Rightarrow> pyval" where
  "astype_int64 (PyFloat f) = PyInt (sint (float_to_int64 f))"
| "astype_int64 (PyInt i) = PyInt i"

text \<open>
  \<^verbatim>\<open>onnx.helper.make_tensor(name, TensorProto.INT64, dims, vals)\<close>: the number of
  values must be the product of \<^verbatim>\<open>dims\<close>, and the values go to \<^verbatim>\<open>int64_data\<close> as
  64-bit integers: a float is converted, and an integer must be of the int64 range.
\<close>

fun extend_int64 :: "pyval list \<Rightarrow> error + int64 list" where
  "extend_int64 [] = Inr []"
| "extend_int64 (PyFloat f # vals) = map_sum id ((#) (float_to_int64 f)) (extend_int64 vals)"
| "extend_int64 (PyInt i # vals) =
     (if int64_range i
      then map_sum id ((#) (word_of_int i)) (extend_int64 vals)
      else Inl ValueError)"

definition make_tensor_INT64 :: "string \<Rightarrow> int list \<Rightarrow> pyval list \<Rightarrow> error + TensorProto" where
  "make_tensor_INT64 nm ds vals =
     (if int (length vals) \<noteq> prod_list ds then Inl ValueError
      else
        (case extend_int64 vals of
           Inl e \<Rightarrow> Inl e
         | Inr ws \<Rightarrow>
             Inr \<lparr>name = nm, data_type = INT64, dims = ds, float_data = [],
                  int64_data = ws, raw_data = []\<rparr>))"

text \<open>Lines 230 to 237: the tensor that replaces \<^verbatim>\<open>new_shape\<close>.\<close>

definition new_shape_tensor :: "TensorProto \<Rightarrow> error + TensorProto" where
  "new_shape_tensor new_shape =
     (case extract_data new_shape of
        Inl e \<Rightarrow> Inl e
      | Inr new_shape_value \<Rightarrow>
          (case setitem0 new_shape_value of
             Inl e \<Rightarrow> Inl e
           | Inr (shp, vals) \<Rightarrow> make_tensor_INT64 (name new_shape) shp vals))"

text \<open>
  \<^verbatim>\<open>new_shape.CopyFrom(t)\<close> overwrites, in place, the initializer that
  \<^verbatim>\<open>find_initializer\<close> returned: the first one of that name.
\<close>

fun CopyFrom :: "string \<Rightarrow> TensorProto \<Rightarrow> TensorProto list \<Rightarrow> TensorProto list" where
  "CopyFrom nm t [] = []"
| "CopyFrom nm t (i # inits) =
     (if name i = nm then t # inits else i # CopyFrom nm t inits)"

text \<open>
  The body of the loop of lines 222 to 237 for one node; \<^verbatim>\<open>continue\<close> leaves the model
  as it is. A protobuf message is always true, so the two tests are tests of presence.
\<close>

definition reshape_step :: "NodeProto \<Rightarrow> ModelProto \<Rightarrow> error option \<times> ModelProto" where
  "reshape_step n onnx_model =
     (if op_type n \<noteq> ''Reshape'' then (None, onnx_model)
      else
        (case node_input n of
           [] \<Rightarrow> (Some IndexError, onnx_model)
         | data # rest \<Rightarrow>
             (if find_initializer onnx_model data \<noteq> None then (None, onnx_model)
              else
                (case rest of
                   [] \<Rightarrow> (Some IndexError, onnx_model)
                 | target # _ \<Rightarrow>
                     (case find_initializer onnx_model target of
                        None \<Rightarrow> (None, onnx_model)
                      | Some new_shape \<Rightarrow>
                          (case new_shape_tensor new_shape of
                             Inl e \<Rightarrow> (Some e, onnx_model)
                           | Inr t \<Rightarrow>
                               (None, onnx_model\<lparr>graph := (graph onnx_model)
                                  \<lparr>initializer :=
                                     CopyFrom target t (initializer (graph onnx_model))\<rparr>\<rparr>)))))))"

text \<open>
  The tests of lines 223 to 227 read as a predicate: node \<^verbatim>\<open>n\<close> is a Reshape whose first
  input names no initializer and whose second input is \<^verbatim>\<open>target\<close>, so that the loop
  body goes on to look \<^verbatim>\<open>target\<close> up among the initializers.
\<close>

definition patches :: "NodeProto \<Rightarrow> ModelProto \<Rightarrow> string \<Rightarrow> bool" where
  "patches n onnx_model target =
     (op_type n = ''Reshape'' \<and>
      (case node_input n of
         data # second # _ \<Rightarrow> find_initializer onnx_model data = None \<and> second = target
       | _ \<Rightarrow> False))"

fun reshape_loop :: "NodeProto list \<Rightarrow> ModelProto \<Rightarrow> error option \<times> ModelProto" where
  "reshape_loop [] onnx_model = (None, onnx_model)"
| "reshape_loop (n # ns) onnx_model =
     (case reshape_step n onnx_model of
        (Some e, m) \<Rightarrow> (Some e, m)
      | (None, m) \<Rightarrow> reshape_loop ns m)"

text \<open>
  \<^verbatim>\<open>change_batch_size\<close>. The shape-inference engine of line 240 is a parameter: it
  answers with its diagnostic when it refuses the model. The result is the exception
  raised, if any, and the model as the call leaves it, since every change is made in
  place.
\<close>

definition change_batch_size ::
  "(ModelProto \<Rightarrow> string option) \<Rightarrow> ModelProto \<Rightarrow> batch_size \<Rightarrow> error option \<times> ModelProto" where
  "change_batch_size infer_shapes onnx_model batch_size =
     (let g = graph onnx_model;
          initializer_names = set (map name (initializer g))
      in case constant_names (node g) of
           Inl e \<Rightarrow> (Some e, onnx_model)
         | Inr const_names \<Rightarrow>
             (case rewrite_chain (initializer_names \<union> const_names) batch_size g of
                (Some e, g1) \<Rightarrow> (Some e, onnx_model\<lparr>graph := g1\<rparr>)
              | (None, g1) \<Rightarrow>
                  (case (case batch_size of
                           Symbolic _ \<Rightarrow> reshape_loop (node g1) (onnx_model\<lparr>graph := g1\<rparr>)
                         | Fixed _ \<Rightarrow> (None, onnx_model\<lparr>graph := g1\<rparr>)) of
                     (Some e, m) \<Rightarrow> (Some e, m)
                   | (None, m) \<Rightarrow> (map_option InferenceError (infer_shapes m), m))))"

section \<open>The storage encodings of one logical tensor\<close>

text \<open>
  The raw encoding that \<^verbatim>\<open>struct\<close> reads back: each element as its bytes, lowest
  first, 4 for a float and 8 for an int64.
\<close>

fun le_bytes :: "nat \<Rightarrow> nat \<Rightarrow> byte list" where
  "le_bytes 0 v = []"
| "le_bytes (Suc k) v = word_of_nat (v mod 256) # le_bytes k (v div 256)"

definition pack_f :: "float32 list \<Rightarrow> byte list" where
  "pack_f vs = concat (map (\<lambda>w. le_bytes 4 (unat w)) vs)"

definition pack_q :: "int64 list \<Rightarrow> byte list" where
  "pack_q ws = concat (map (\<lambda>w. le_bytes 8 (unat w)) ws)"

section \<open>Properties of the decoder\<close>

lemma iter_unpack_not_KeyError: "iter_unpack n buf \<noteq> Inl KeyError"
  by (simp add: iter_unpack_def)

lemma np_reshape_not_KeyError: "np_reshape ret ds \<noteq> Inl KeyError"
  by (simp add: np_reshape_def Let_def)

lemma flat_data_KeyError:
  "flat_data params = Inl KeyError \<longleftrightarrow> data_type params \<noteq> FLOAT \<and> data_type params \<noteq> INT64"
  by (cases "iter_unpack 4 (raw_data params)"; cases "iter_unpack 8 (raw_data params)")
     (auto simp: flat_data_def iter_unpack_def FLOAT_def INT64_def split: if_splits)

text \<open>
  C8. \<^verbatim>\<open>extract_data\<close> raises the unsupported-data-type error (\<^verbatim>\<open>KeyError\<close> of the
  format table) exactly when the tag is neither FLOAT nor INT64.
\<close>

theorem extract_data_unsupported_iff:
  "extract_data params = Inl KeyError \<longleftrightarrow>
     data_type params \<noteq> FLOAT \<and> data_type params \<noteq> INT64"
proof (cases "flat_data params")
  case (Inl e)
  then show ?thesis
    using flat_data_KeyError [of params] by (simp add: extract_data_def)
next
  case (Inr ret)
  then have "extract_data params \<noteq> Inl KeyError"
    by (simp add: extract_data_def np_reshape_not_KeyError)
  moreover have "\<not> (data_type params \<noteq> FLOAT \<and> data_type params \<noteq> INT64)"
    using flat_data_KeyError [of params] Inr by auto
  ultimately show ?thesis by blast
qed

lemma length_le_bytes: "length (le_bytes k v) = k"
  by (induction k arbitrary: v) auto

lemma le_nat_le_bytes: "le_nat (le_bytes k v) = v mod 256 ^ k"
proof (induction k arbitrary: v)
  case 0
  then show ?case by simp
next
  case (Suc k)
  have "unat (word_of_nat (v mod 256) :: byte) = v mod 256"
    by (simp add: unat_of_nat)
  then show ?case
    using Suc [of "v div 256"] by (simp add: mod_mult2_eq)
qed

lemma unat_mod_32: "unat (w :: float32) mod 256 ^ 4 = unat w"
proof -
  have "unat w < 2 ^ 32"
    using unsigned_less [of w, where ?'a = nat] by simp
  moreover have "(256 :: nat) ^ 4 = 2 ^ 32" by simp
  ultimately show ?thesis by (simp only: mod_less)
qed

lemma unat_mod_64: "unat (w :: int64) mod 256 ^ 8 = unat w"
proof -
  have "unat w < 2 ^ 64"
    using unsigned_less [of w, where ?'a = nat] by simp
  moreover have "(256 :: nat) ^ 8 = 2 ^ 64" by simp
  ultimately show ?thesis by (simp only: mod_less)
qed

lemma unpack_f_le_bytes: "unpack_f (le_bytes 4 (unat (w :: float32))) = PyFloat w"
  unfolding unpack_f_def le_nat_le_bytes unat_mod_32 by simp

lemma unpack_q_le_bytes: "unpack_q (le_bytes 8 (unat (w :: int64))) = PyInt (sint w)"
  unfolding unpack_q_def le_nat_le_bytes unat_mod_64 by simp

lemma chunks_Nil [simp]: "chunks n [] = []"
  by (subst chunks.simps) simp

lemma chunks_concat:
  "0 < n \<Longrightarrow> \<forall>x \<in> set xss. length x = n \<Longrightarrow> chunks n (concat xss) = xss"
proof (induction xss)
  case Nil
  then show ?case by simp
next
  case (Cons x xss)
  then have "x \<noteq> []" by auto
  with Cons show ?case by (subst chunks.simps) simp
qed

lemma length_concat_mod:
  "\<forall>x \<in> set xss. length x = n \<Longrightarrow> length (concat xss) mod n = 0"
  by (induction xss) auto

lemma iter_unpack_concat:
  "0 < n \<Longrightarrow> \<forall>x \<in> set xss. length x = n \<Longrightarrow> iter_unpack n (concat xss) = Inr xss"
  by (simp add: iter_unpack_def chunks_concat length_concat_mod)

lemma flat_data_float:
  "flat_data (t\<lparr>data_type := FLOAT, float_data := [], raw_data := pack_f vs\<rparr>) = Inr (map PyFloat vs)"
proof -
  have "iter_unpack 4 (pack_f vs) = Inr (map (\<lambda>w. le_bytes 4 (unat w)) vs)"
    unfolding pack_f_def by (rule iter_unpack_concat) (auto simp: length_le_bytes)
  then show ?thesis
    by (simp add: flat_data_def o_def unpack_f_le_bytes FLOAT_def INT64_def)
qed

lemma flat_data_float_field:
  "flat_data (t\<lparr>data_type := FLOAT, float_data := vs, raw_data := []\<rparr>) = Inr (map PyFloat vs)"
  by (simp add: flat_data_def iter_unpack_def FLOAT_def INT64_def)

lemma flat_data_int64:
  "flat_data (t\<lparr>data_type := INT64, int64_data := [], raw_data := pack_q ws\<rparr>)
     = Inr (map (\<lambda>w. PyInt (sint w)) ws)"
proof -
  have "iter_unpack 8 (pack_q ws) = Inr (map (\<lambda>w. le_bytes 8 (unat w)) ws)"
    unfolding pack_q_def by (rule iter_unpack_concat) (auto simp: length_le_bytes)
  then show ?thesis
    by (simp add: flat_data_def o_def unpack_q_le_bytes FLOAT_def INT64_def)
qed

lemma flat_data_int64_field:
  "flat_data (t\<lparr>data_type := INT64, int64_data := ws, raw_data := []\<rparr>)
     = Inr (map (\<lambda>w. PyInt (sint w)) ws)"
  by (simp add: flat_data_def iter_unpack_def FLOAT_def INT64_def)

text \<open>
  C5. A FLOAT tensor stored in \<^verbatim>\<open>float_data\<close> and the same tensor stored in
  \<^verbatim>\<open>raw_data\<close> decode to the same result, and so do an INT64 tensor stored in
  \<^verbatim>\<open>int64_data\<close> and the same tensor stored in \<^verbatim>\<open>raw_data\<close>, whatever the name and
  the declared shape are.
\<close>

theorem round_trip_decoding:
  "extract_data (t\<lparr>data_type := FLOAT, float_data := vs, raw_data := []\<rparr>)
     = extract_data (t\<lparr>data_type := FLOAT, float_data := [], raw_data := pack_f vs\<rparr>)
   \<and> extract_data (t\<lparr>data_type := INT64, int64_data := ws, raw_data := []\<rparr>)
     = extract_data (t\<lparr>data_type := INT64, int64_data := [], raw_data := pack_q ws\<rparr>)"
  by (simp add: extract_data_def flat_data_float flat_data_float_field
      flat_data_int64 flat_data_int64_field)

theorem round_trip_decoding_witness:
  "extract_data \<lparr>name = ''shape0'', data_type = INT64, dims = [2], float_data = [],
                  int64_data = [], raw_data = pack_q [10, - 1]\<rparr>
     = Inr (NDArray [2] [PyInt 10, PyInt (- 1)])"
proof -
  let ?t = "\<lparr>name = ''shape0'', data_type = INT64, dims = [2], float_data = [],
             int64_data = [], raw_data = []\<rparr>"
  have "extract_data (?t\<lparr>data_type := INT64, int64_data := [10, - 1], raw_data := []\<rparr>)
          = Inr (NDArray [2] [PyInt 10, PyInt (- 1)])"
    by (simp add: extract_data_def flat_data_def np_reshape_def FLOAT_def INT64_def)
  with round_trip_decoding [where t = ?t and ws = "[10, - 1]"]
  have "extract_data (?t\<lparr>data_type := INT64, int64_data := [], raw_data := pack_q [10, - 1]\<rparr>)
          = Inr (NDArray [2] [PyInt 10, PyInt (- 1)])"
    by (simp only:)
  then show ?thesis by (simp only: TensorProto.update_convs)
qed

text \<open>
  C7. For an initializer with empty \<^verbatim>\<open>dims\<close> whose stored elements decode to the
  sequence \<^verbatim>\<open>ret\<close>: one element is returned as a bare scalar, and any other number of
  elements fails the assertion.
\<close>

theorem scalar_invariant:
  assumes "dims params = []" and "flat_data params = Inr ret"
  shows "(\<forall>x. ret = [x] \<longrightarrow> extract_data params = Inr (Scalar x))
       \<and> (length ret \<noteq> 1 \<longrightarrow> extract_data params = Inl AssertionError)"
  using assms by (auto simp: extract_data_def)

theorem scalar_invariant_witness:
  "extract_data \<lparr>name = ''s'', data_type = INT64, dims = [], float_data = [],
                  int64_data = [5], raw_data = []\<rparr> = Inr (Scalar (PyInt 5))
   \<and> extract_data \<lparr>name = ''s'', data_type = INT64, dims = [], float_data = [],
                  int64_data = [5, 6], raw_data = []\<rparr> = Inl AssertionError"
proof -
  let ?one = "\<lparr>name = ''s'', data_type = INT64, dims = [], float_data = [],
               int64_data = [5 :: int64], raw_data = []\<rparr>"
  let ?two = "\<lparr>name = ''s'', data_type = INT64, dims = [], float_data = [],
               int64_data = [5 :: int64, 6], raw_data = []\<rparr>"
  have f1: "flat_data ?one = Inr [PyInt 5]"
    by (simp add: flat_data_def FLOAT_def INT64_def)
  have f2: "flat_data ?two = Inr [PyInt 5, PyInt 6]"
    by (simp add: flat_data_def FLOAT_def INT64_def)
  have "extract_data ?one = Inr (Scalar (PyInt 5))"
    using scalar_invariant [of ?one "[PyInt 5]"] f1 by simp
  moreover have "extract_data ?two = Inl AssertionError"
    using scalar_invariant [of ?two "[PyInt 5, PyInt 6]"] f2 by simp
  ultimately show ?thesis by simp
qed

section \<open>Properties of the lookups\<close>

lemma find_append_case:
  "find P (xs @ ys) = (case find P xs of Some v \<Rightarrow> Some v | None \<Rightarrow> find P ys)"
  by (induction xs) auto

lemma endswith_iff: "endswith s suffix \<longleftrightarrow> (\<exists>p. s = p @ suffix)"
proof
  assume "endswith s suffix"
  then have "s = take (length s - length suffix) s @ suffix"
    by (metis append_take_drop_id endswith_def)
  then show "\<exists>p. s = p @ suffix" ..
next
  assume "\<exists>p. s = p @ suffix"
  then show "endswith s suffix" by (auto simp: endswith_def)
qed

lemma take_suffix: "take (length (p @ suffix) - length suffix) (p @ suffix) = p"
  by simp

lemma search_in_order_chain:
  "find (\<lambda>v. vi_name v = key) (value_info g @ graph_input g @ graph_output g)
     = search_in_order g key"
  by (simp add: search_in_order_def find_append_case split: option.split)

lemma find_tensor_value_info_stripped:
  assumes "nm = p @ ''_before_merge''"
  shows "find_tensor_value_info m nm =
     (case search_in_order (graph m) p of Some v \<Rightarrow> Inr v | None \<Rightarrow> Inl ValueError)"
proof -
  have e: "endswith nm ''_before_merge''"
    using assms endswith_iff by blast
  have t: "take (length nm - length ''_before_merge'') nm = p"
    unfolding assms by (rule take_suffix)
  show ?thesis
    unfolding find_tensor_value_info_def Let_def search_in_order_chain
    by (simp only: e t if_True)
qed

lemma find_tensor_value_info_plain:
  assumes "\<not> endswith nm ''_before_merge''"
  shows "find_tensor_value_info m nm =
     (case search_in_order (graph m) nm of Some v \<Rightarrow> Inr v | None \<Rightarrow> Inl ValueError)"
  unfolding find_tensor_value_info_def Let_def search_in_order_chain
  by (simp only: assms if_False)

lemma find_Some_holds: "find P xs = Some v \<Longrightarrow> P v \<and> v \<in> set xs"
  by (induction xs) (auto split: if_splits)

lemma find_name_None:
  "(find (\<lambda>v. vi_name v = key) xs = None) = (\<forall>v \<in> set xs. vi_name v \<noteq> key)"
  by (auto simp: find_None_iff)

lemma search_in_order_None:
  "search_in_order g key = None \<longleftrightarrow>
     (\<forall>v \<in> set (value_info g) \<union> set (graph_input g) \<union> set (graph_output g). vi_name v \<noteq> key)"
  unfolding search_in_order_chain [symmetric] find_name_None by (simp add: Un_assoc)

lemma search_in_order_Some:
  "search_in_order g key = Some v \<Longrightarrow> vi_name v = key"
  unfolding search_in_order_chain [symmetric] by (auto dest: find_Some_holds)

text \<open>
  C9. \<^verbatim>\<open>find_tensor_value_info\<close> looks for the name without its \<^verbatim>\<open>_before_merge\<close>
  suffix when it has one and for the name itself otherwise; it answers with the first
  record of that name among the value-infos, else among the graph inputs, else among
  the graph outputs, and raises (\<^verbatim>\<open>ValueError\<close>, the not-found error) exactly when no
  record of the three collections has that name.
\<close>

theorem find_tensor_value_info_spec:
  "(\<forall>p. nm = p @ ''_before_merge'' \<longrightarrow>
      find_tensor_value_info m nm =
        (case search_in_order (graph m) p of Some v \<Rightarrow> Inr v | None \<Rightarrow> Inl ValueError))
   \<and> ((\<nexists>p. nm = p @ ''_before_merge'') \<longrightarrow>
      find_tensor_value_info m nm =
        (case search_in_order (graph m) nm of Some v \<Rightarrow> Inr v | None \<Rightarrow> Inl ValueError))
   \<and> (\<forall>key. search_in_order (graph m) key = None \<longleftrightarrow>
        (\<forall>v \<in> set (value_info (graph m)) \<union> set (graph_input (graph m))
               \<union> set (graph_output (graph m)). vi_name v \<noteq> key))
   \<and> (\<forall>key v. search_in_order (graph m) key = Some v \<longrightarrow> vi_name v = key)"
  using find_tensor_value_info_stripped [of nm _ m] find_tensor_value_info_plain [of nm m]
    search_in_order_None [of "graph m"] search_in_order_Some [of "graph m"]
  unfolding endswith_iff by blast

theorem find_tensor_value_info_spec_witness:
  "find_tensor_value_info
     \<lparr>graph = \<lparr>node = [], initializer = [],
        value_info = [\<lparr>vi_name = ''y'', elem_type = 1, shape = []\<rparr>],
        graph_input = [\<lparr>vi_name = ''x'', elem_type = 1, shape = []\<rparr>],
        graph_output = [\<lparr>vi_name = ''y'', elem_type = 7, shape = []\<rparr>]\<rparr>\<rparr>
     ''y_before_merge'' = Inr \<lparr>vi_name = ''y'', elem_type = 1, shape = []\<rparr>"
proof -
  let ?m = "\<lparr>graph = \<lparr>node = [], initializer = [],
        value_info = [\<lparr>vi_name = ''y'', elem_type = 1, shape = []\<rparr>],
        graph_input = [\<lparr>vi_name = ''x'', elem_type = 1, shape = []\<rparr>],
        graph_output = [\<lparr>vi_name = ''y'', elem_type = 7, shape = []\<rparr>]\<rparr>\<rparr>"
  have "''y_before_merge'' = ''y'' @ ''_before_merge''" by simp
  then have "find_tensor_value_info ?m ''y_before_merge'' =
      (case search_in_order (graph ?m) ''y'' of Some v \<Rightarrow> Inr v | None \<Rightarrow> Inl ValueError)"
    using find_tensor_value_info_spec [of "''y_before_merge''" ?m] by blast
  then show ?thesis by (simp add: search_in_order_def)
qed

section \<open>Properties of the rewrite of the value-infos\<close>

lemma rewrite_value_infos_length:
  "length (snd (rewrite_value_infos skip bs vis)) = length vis"
  by (induction vis) (auto split: prod.splits sum.splits)

lemma rewrite_value_infos_skipped:
  "i < length vis \<Longrightarrow> vi_name (vis ! i) \<in> skip \<Longrightarrow>
     snd (rewrite_value_infos skip bs vis) ! i = vis ! i"
proof (induction vis arbitrary: i)
  case Nil
  then show ?case by simp
next
  case (Cons v vis)
  show ?case
  proof (cases i)
    case 0
    with Cons.prems show ?thesis by (simp split: prod.splits)
  next
    case (Suc j)
    with Cons.prems have "snd (rewrite_value_infos skip bs vis) ! j = vis ! j"
      by (intro Cons.IH) simp_all
    with Suc show ?thesis by (auto split: prod.splits sum.splits)
  qed
qed

lemma rewrite_value_infos_done:
  "fst (rewrite_value_infos skip bs vis) = None \<Longrightarrow> i < length vis \<Longrightarrow>
     vi_name (vis ! i) \<notin> skip \<Longrightarrow>
     set_dim0 bs (vis ! i) = Inr (snd (rewrite_value_infos skip bs vis) ! i)"
proof (induction vis arbitrary: i)
  case Nil
  then show ?case by simp
next
  case (Cons v vis)
  from Cons.prems(1) have rest: "fst (rewrite_value_infos skip bs vis) = None"
    by (simp split: if_splits prod.splits sum.splits)
  show ?case
  proof (cases i)
    case 0
    with Cons.prems show ?thesis by (simp split: prod.splits sum.splits)
  next
    case (Suc j)
    with Cons.prems rest
    have "set_dim0 bs (vis ! j) = Inr (snd (rewrite_value_infos skip bs vis) ! j)"
      by (intro Cons.IH) simp_all
    with Suc Cons.prems(1) show ?thesis by (simp split: if_splits prod.splits sum.splits)
  qed
qed

lemma set_dim0_ok:
  "(case bs of Symbolic s \<Rightarrow> True | Fixed n \<Rightarrow> int64_range n) \<Longrightarrow> \<exists>v'. set_dim0 bs v = Inr v'"
  by (cases bs) (auto simp: set_dim0_def split: list.splits)

lemma rewrite_value_infos_ok:
  "(case bs of Symbolic s \<Rightarrow> True | Fixed n \<Rightarrow> int64_range n) \<Longrightarrow>
     fst (rewrite_value_infos skip bs vis) = None"
proof (induction vis)
  case Nil
  then show ?case by simp
next
  case (Cons v vis)
  then obtain v' where "set_dim0 bs v = Inr v'"
    using set_dim0_ok by blast
  with Cons show ?case by (auto split: prod.splits)
qed

lemma constant_names_set:
  "constant_names ns = Inr cn \<Longrightarrow>
     cn = {out. \<exists>n \<in> set ns. op_type n = ''Constant'' \<and> (\<exists>rest. node_output n = out # rest)}"
proof (induction ns arbitrary: cn)
  case Nil
  then show ?case by simp
next
  case (Cons n ns)
  show ?case
  proof (cases "op_type n = ''Constant''")
    case False
    with Cons show ?thesis by auto
  next
    case True
    with Cons.prems obtain out rest cn' where
      out: "node_output n = out # rest" and cn': "constant_names ns = Inr cn'" and cn: "cn = insert out cn'"
      by (cases "node_output n"; cases "constant_names ns") auto
    from Cons.IH [OF cn'] cn out True show ?thesis by auto
  qed
qed

lemma rewrite_chain_frame:
  "rewrite_chain skip bs g = (r, g') \<Longrightarrow>
     node g' = node g \<and> initializer g' = initializer g"
  by (auto simp: rewrite_chain_def split: prod.splits option.splits)

lemma rewrite_chain_ok:
  assumes "case bs of Symbolic s \<Rightarrow> True | Fixed n \<Rightarrow> int64_range n"
  shows "rewrite_chain skip bs g =
     (None, g\<lparr>value_info := snd (rewrite_value_infos skip bs (value_info g)),
              graph_input := snd (rewrite_value_infos skip bs (graph_input g)),
              graph_output := snd (rewrite_value_infos skip bs (graph_output g))\<rparr>)"
  using rewrite_value_infos_ok [OF assms, of skip "value_info g"]
    rewrite_value_infos_ok [OF assms, of skip "graph_input g"]
    rewrite_value_infos_ok [OF assms, of skip "graph_output g"]
  by (auto simp: rewrite_chain_def split: prod.splits option.splits)

lemma rewrite_chain_cases:
  assumes "rewrite_chain skip bs g = (r, g')"
    and "sel \<in> {value_info, graph_input, graph_output}"
  shows "sel g' = sel g \<or> sel g' = snd (rewrite_value_infos skip bs (sel g))"
  using assms by (auto simp: rewrite_chain_def split: prod.splits option.splits)

section \<open>What the loop over the Reshape nodes leaves alone\<close>

lemma find_initializer_name:
  "find_initializer m nm = Some t \<Longrightarrow> name t = nm"
  by (auto simp: find_initializer_def dest: find_Some_holds)

lemma make_tensor_INT64_name:
  "make_tensor_INT64 nm ds vals = Inr t \<Longrightarrow> name t = nm"
  by (auto simp: make_tensor_INT64_def split: if_splits sum.splits)

lemma new_shape_tensor_name:
  "new_shape_tensor new_shape = Inr t \<Longrightarrow> name t = name new_shape"
  by (auto simp: new_shape_tensor_def split: sum.splits prod.splits
      dest: make_tensor_INT64_name)

lemma CopyFrom_names:
  "name t = nm \<Longrightarrow> map name (CopyFrom nm t inits) = map name inits"
  by (induction inits) auto

lemma reshape_step_frame:
  assumes "reshape_step n m = (r, m')"
  shows "node (graph m') = node (graph m) \<and> value_info (graph m') = value_info (graph m)
       \<and> graph_input (graph m') = graph_input (graph m)
       \<and> graph_output (graph m') = graph_output (graph m)
       \<and> map name (initializer (graph m')) = map name (initializer (graph m))"
proof (cases "m' = m")
  case True
  then show ?thesis by simp
next
  case False
  with assms obtain target new_shape t where
    "find_initializer m target = Some new_shape" "new_shape_tensor new_shape = Inr t"
    "m' = m\<lparr>graph := (graph m)\<lparr>initializer := CopyFrom target t (initializer (graph m))\<rparr>\<rparr>"
    by (auto simp: reshape_step_def split: if_splits list.splits option.splits sum.splits)
  then show ?thesis
    using find_initializer_name new_shape_tensor_name CopyFrom_names by auto
qed

lemma reshape_loop_frame:
  "reshape_loop ns m = (r, m') \<Longrightarrow>
     node (graph m') = node (graph m) \<and> value_info (graph m') = value_info (graph m)
       \<and> graph_input (graph m') = graph_input (graph m)
       \<and> graph_output (graph m') = graph_output (graph m)
       \<and> map name (initializer (graph m')) = map name (initializer (graph m))"
proof (induction ns arbitrary: m)
  case Nil
  then show ?case by simp
next
  case (Cons n ns)
  obtain r1 m1 where step: "reshape_step n m = (r1, m1)"
    by (cases "reshape_step n m")
  note f = reshape_step_frame [OF step]
  show ?case
  proof (cases r1)
    case None
    with Cons.prems step have "reshape_loop ns m1 = (r, m')" by simp
    from Cons.IH [OF this] f show ?thesis by simp
  next
    case (Some e)
    with Cons.prems step have "m' = m1" by simp
    with f show ?thesis by simp
  qed
qed

section \<open>The value-infos after \<^verbatim>\<open>change_batch_size\<close>\<close>

lemma change_batch_size_no_constants:
  "constant_names (node (graph m)) = Inl e \<Longrightarrow> change_batch_size chk m bs = (Some e, m)"
  by (simp add: change_batch_size_def)

lemma change_batch_size_value_infos:
  assumes cn: "constant_names (node (graph m)) = Inr cn"
    and rc: "rewrite_chain (set (map name (initializer (graph m))) \<union> cn) bs (graph m) = (r1, g1)"
  shows "value_info (graph (snd (change_batch_size chk m bs))) = value_info g1
       \<and> graph_input (graph (snd (change_batch_size chk m bs))) = graph_input g1
       \<and> graph_output (graph (snd (change_batch_size chk m bs))) = graph_output g1"
proof (cases r1)
  case (Some e)
  with cn rc show ?thesis by (simp add: change_batch_size_def)
next
  case None
  show ?thesis
  proof (cases bs)
    case (Fixed n)
    with None cn rc show ?thesis by (simp add: change_batch_size_def)
  next
    case (Symbolic s)
    obtain r2 m2 where loop: "reshape_loop (node g1) (m\<lparr>graph := g1\<rparr>) = (r2, m2)"
      by (cases "reshape_loop (node g1) (m\<lparr>graph := g1\<rparr>)")
    have "snd (change_batch_size chk m bs) = m2"
      using None cn rc Symbolic loop
      by (cases r2) (simp_all add: change_batch_size_def)
    with reshape_loop_frame [OF loop] show ?thesis by simp
  qed
qed

lemma change_batch_size_sel_ok:
  assumes cn: "constant_names (node (graph m)) = Inr cn"
    and range: "case bs of Symbolic s \<Rightarrow> True | Fixed n \<Rightarrow> int64_range n"
    and sel: "sel \<in> {value_info, graph_input, graph_output}"
  shows "sel (graph (snd (change_batch_size chk m bs)))
       = snd (rewrite_value_infos (set (map name (initializer (graph m))) \<union> cn) bs
               (sel (graph m)))"
  using change_batch_size_value_infos [OF cn rewrite_chain_ok [OF range], of chk] sel
  by auto

lemma change_batch_size_sel_cases:
  assumes sel: "sel \<in> {value_info, graph_input, graph_output}"
  shows "sel (graph (snd (change_batch_size chk m bs))) = sel (graph m)
       \<or> (\<exists>cn. constant_names (node (graph m)) = Inr cn
             \<and> sel (graph (snd (change_batch_size chk m bs)))
               = snd (rewrite_value_infos (set (map name (initializer (graph m))) \<union> cn) bs
                       (sel (graph m))))"
proof (cases "constant_names (node (graph m))")
  case (Inl e)
  then show ?thesis by (simp add: change_batch_size_no_constants)
next
  case (Inr cn)
  obtain r1 g1 where
    rc: "rewrite_chain (set (map name (initializer (graph m))) \<union> cn) bs (graph m) = (r1, g1)"
    by (cases "rewrite_chain (set (map name (initializer (graph m))) \<union> cn) bs (graph m)")
  from change_batch_size_value_infos [OF Inr rc, of chk] sel
  have "sel (graph (snd (change_batch_size chk m bs))) = sel g1" by auto
  with rewrite_chain_cases [OF rc sel] Inr show ?thesis by auto
qed

text \<open>
  C2. When no Constant node lacks an output and an integer batch size fits an int64
  field (the two ways in which the first loop can raise), every record of
  \<^verbatim>\<open>value_info\<close>, of the graph inputs and of the graph outputs whose name is neither
  an initializer's nor a Constant node's first output, and whose shape is not empty,
  ends with dimension 0 set to the batch size (\<^verbatim>\<open>dim_param\<close> for a string,
  \<^verbatim>\<open>dim_value\<close> for an integer) and with everything else as it was. This holds of the
  model as the call leaves it, whatever happens later in the call.
\<close>

theorem dimension0_rewrite:
  assumes "constant_names (node (graph m)) = Inr cn"
    and "case bs of Symbolic s \<Rightarrow> True | Fixed n \<Rightarrow> int64_range n"
    and "sel \<in> {value_info, graph_input, graph_output}"
    and "i < length (sel (graph m))"
    and "vi_name (sel (graph m) ! i) \<notin> set (map name (initializer (graph m))) \<union> cn"
    and "shape (sel (graph m) ! i) = d # ds"
  shows "sel (graph (snd (change_batch_size infer_shapes m bs))) ! i
       = (sel (graph m) ! i)
           \<lparr>shape := d\<lparr>dim_oneof := (case bs of Symbolic s \<Rightarrow> DimParam s
                                      | Fixed n \<Rightarrow> DimValue n)\<rparr> # ds\<rparr>"
proof -
  let ?skip = "set (map name (initializer (graph m))) \<union> cn"
  have "set_dim0 bs (sel (graph m) ! i)
          = Inr (snd (rewrite_value_infos ?skip bs (sel (graph m))) ! i)"
    using assms(2,4,5) by (intro rewrite_value_infos_done rewrite_value_infos_ok)
  moreover have "set_dim0 bs (sel (graph m) ! i)
          = Inr ((sel (graph m) ! i)
           \<lparr>shape := d\<lparr>dim_oneof := (case bs of Symbolic s \<Rightarrow> DimParam s
                                      | Fixed n \<Rightarrow> DimValue n)\<rparr> # ds\<rparr>)"
    using assms(2,6) by (cases bs) (simp_all add: set_dim0_def)
  ultimately show ?thesis
    using change_batch_size_sel_ok [OF assms(1,2,3), of infer_shapes] by simp
qed

theorem dimension0_rewrite_witness:
  "graph_input (graph (snd (change_batch_size (\<lambda>_. None)
     \<lparr>graph = \<lparr>node = [], initializer = [], value_info = [],
        graph_input = [\<lparr>vi_name = ''x'', elem_type = 1,
          shape = [\<lparr>dim_oneof = DimValue 10, denotation = []\<rparr>,
                   \<lparr>dim_oneof = DimValue 3, denotation = []\<rparr>,
                   \<lparr>dim_oneof = DimValue 224, denotation = []\<rparr>,
                   \<lparr>dim_oneof = DimValue 224, denotation = []\<rparr>]\<rparr>],
        graph_output = []\<rparr>\<rparr> (Symbolic ''N'')))) ! 0
   = \<lparr>vi_name = ''x'', elem_type = 1,
          shape = [\<lparr>dim_oneof = DimParam ''N'', denotation = []\<rparr>,
                   \<lparr>dim_oneof = DimValue 3, denotation = []\<rparr>,
                   \<lparr>dim_oneof = DimValue 224, denotation = []\<rparr>,
                   \<lparr>dim_oneof = DimValue 224, denotation = []\<rparr>]\<rparr>"
proof -
  let ?x = "\<lparr>vi_name = ''x'', elem_type = 1,
          shape = [\<lparr>dim_oneof = DimValue 10, denotation = []\<rparr>,
                   \<lparr>dim_oneof = DimValue 3, denotation = []\<rparr>,
                   \<lparr>dim_oneof = DimValue 224, denotation = []\<rparr>,
                   \<lparr>dim_oneof = DimValue 224, denotation = []\<rparr>]\<rparr>"
  let ?m = "\<lparr>graph = \<lparr>node = [], initializer = [], value_info = [],
        graph_input = [?x], graph_output = []\<rparr>\<rparr>"
  have "graph_input (graph (snd (change_batch_size (\<lambda>_. None) ?m (Symbolic ''N'')))) ! 0
      = (graph_input (graph ?m) ! 0)
           \<lparr>shape := \<lparr>dim_oneof = DimValue 10, denotation = []\<rparr>
                 \<lparr>dim_oneof := (case Symbolic ''N'' of Symbolic s \<Rightarrow> DimParam s
                                      | Fixed n \<Rightarrow> DimValue n)\<rparr> #
              [\<lparr>dim_oneof = DimValue 3, denotation = []\<rparr>,
               \<lparr>dim_oneof = DimValue 224, denotation = []\<rparr>,
               \<lparr>dim_oneof = DimValue 224, denotation = []\<rparr>]\<rparr>"
    by (rule dimension0_rewrite [where cn = "{}"]) simp_all
  then show ?thesis by simp
qed

lemma change_batch_size_sel_length:
  assumes "sel \<in> {value_info, graph_input, graph_output}"
  shows "length (sel (graph (snd (change_batch_size chk m bs)))) = length (sel (graph m))"
  using change_batch_size_sel_cases [OF assms, of chk m bs]
  by (auto simp: rewrite_value_infos_length)

lemma change_batch_size_sel_skipped:
  assumes sel: "sel \<in> {value_info, graph_input, graph_output}"
    and i: "i < length (sel (graph m))"
    and c: "vi_name (sel (graph m) ! i) \<in> set (map name (initializer (graph m)))
          \<or> (\<exists>n \<in> set (node (graph m)). op_type n = ''Constant''
               \<and> (\<exists>rest. node_output n = vi_name (sel (graph m) ! i) # rest))"
  shows "sel (graph (snd (change_batch_size chk m bs))) ! i = sel (graph m) ! i"
proof -
  from change_batch_size_sel_cases [OF sel, of chk m bs]
  consider "sel (graph (snd (change_batch_size chk m bs))) = sel (graph m)"
    | cn where "constant_names (node (graph m)) = Inr cn"
      "sel (graph (snd (change_batch_size chk m bs)))
         = snd (rewrite_value_infos (set (map name (initializer (graph m))) \<union> cn) bs
                 (sel (graph m)))"
    by blast
  then show ?thesis
  proof cases
    case 1
    then show ?thesis by simp
  next
    case 2
    from constant_names_set [OF 2(1)] c
    have "vi_name (sel (graph m) ! i) \<in> set (map name (initializer (graph m))) \<union> cn"
      by auto
    with 2(2) i show ?thesis by (simp add: rewrite_value_infos_skipped)
  qed
qed

text \<open>
  C6. In each of the three collections, a record whose name is an initializer's name
  or the first output of a Constant node is the same after \<^verbatim>\<open>change_batch_size\<close> as
  before, whatever the batch size and however the call ends; so a collection all of
  whose records have such names is left as it was.
\<close>

theorem constants_keep_shape:
  assumes "sel \<in> {value_info, graph_input, graph_output}"
  shows "(\<forall>i < length (sel (graph m)).
            (vi_name (sel (graph m) ! i) \<in> set (map name (initializer (graph m)))
             \<or> (\<exists>n \<in> set (node (graph m)). op_type n = ''Constant''
                  \<and> (\<exists>rest. node_output n = vi_name (sel (graph m) ! i) # rest)))
            \<longrightarrow> sel (graph (snd (change_batch_size infer_shapes m bs))) ! i = sel (graph m) ! i)
       \<and> ((\<forall>v \<in> set (sel (graph m)).
              vi_name v \<in> set (map name (initializer (graph m)))
              \<or> (\<exists>n \<in> set (node (graph m)). op_type n = ''Constant''
                   \<and> (\<exists>rest. node_output n = vi_name v # rest)))
            \<longrightarrow> sel (graph (snd (change_batch_size infer_shapes m bs))) = sel (graph m))"
proof (intro conjI allI impI)
  fix i
  assume "i < length (sel (graph m))"
    and "vi_name (sel (graph m) ! i) \<in> set (map name (initializer (graph m)))
             \<or> (\<exists>n \<in> set (node (graph m)). op_type n = ''Constant''
                  \<and> (\<exists>rest. node_output n = vi_name (sel (graph m) ! i) # rest))"
  then show "sel (graph (snd (change_batch_size infer_shapes m bs))) ! i = sel (graph m) ! i"
    by (rule change_batch_size_sel_skipped [OF assms])
next
  assume all: "\<forall>v \<in> set (sel (graph m)).
              vi_name v \<in> set (map name (initializer (graph m)))
              \<or> (\<exists>n \<in> set (node (graph m)). op_type n = ''Constant''
                   \<and> (\<exists>rest. node_output n = vi_name v # rest))"
  show "sel (graph (snd (change_batch_size infer_shapes m bs))) = sel (graph m)"
  proof (rule nth_equalityI)
    show "length (sel (graph (snd (change_batch_size infer_shapes m bs)))) = length (sel (graph m))"
      by (rule change_batch_size_sel_length [OF assms])
  next
    fix i assume "i < length (sel (graph (snd (change_batch_size infer_shapes m bs))))"
    then have i: "i < length (sel (graph m))"
      by (simp add: change_batch_size_sel_length [OF assms])
    with all show "sel (graph (snd (change_batch_size infer_shapes m bs))) ! i = sel (graph m) ! i"
      by (intro change_batch_size_sel_skipped [OF assms]) auto
  qed
qed

theorem constants_keep_shape_witness:
  "value_info (graph (snd (change_batch_size (\<lambda>_. None)
     \<lparr>graph = \<lparr>node = [\<lparr>op_type = ''Constant'', node_input = [], node_output = [''c'']\<rparr>],
        initializer = [\<lparr>name = ''w'', data_type = FLOAT, dims = [2], float_data = [1, 2],
                         int64_data = [], raw_data = []\<rparr>],
        value_info = [\<lparr>vi_name = ''w'', elem_type = 1,
                         shape = [\<lparr>dim_oneof = DimValue 2, denotation = []\<rparr>]\<rparr>,
                      \<lparr>vi_name = ''c'', elem_type = 1,
                         shape = [\<lparr>dim_oneof = DimValue 10, denotation = []\<rparr>]\<rparr>],
        graph_input = [], graph_output = []\<rparr>\<rparr> (Symbolic ''N''))))
   = [\<lparr>vi_name = ''w'', elem_type = 1,
        shape = [\<lparr>dim_oneof = DimValue 2, denotation = []\<rparr>]\<rparr>,
      \<lparr>vi_name = ''c'', elem_type = 1,
        shape = [\<lparr>dim_oneof = DimValue 10, denotation = []\<rparr>]\<rparr>]"
proof -
  let ?m = "\<lparr>graph = \<lparr>node = [\<lparr>op_type = ''Constant'', node_input = [], node_output = [''c'']\<rparr>],
        initializer = [\<lparr>name = ''w'', data_type = FLOAT, dims = [2], float_data = [1, 2],
                         int64_data = [], raw_data = []\<rparr>],
        value_info = [\<lparr>vi_name = ''w'', elem_type = 1,
                         shape = [\<lparr>dim_oneof = DimValue 2, denotation = []\<rparr>]\<rparr>,
                      \<lparr>vi_name = ''c'', elem_type = 1,
                         shape = [\<lparr>dim_oneof = DimValue 10, denotation = []\<rparr>]\<rparr>],
        graph_input = [], graph_output = []\<rparr>\<rparr>"
  have sel: "value_info \<in> {value_info, graph_input, graph_output}" by simp
  have "\<forall>v \<in> set (value_info (graph ?m)).
              vi_name v \<in> set (map name (initializer (graph ?m)))
              \<or> (\<exists>n \<in> set (node (graph ?m)). op_type n = ''Constant''
                   \<and> (\<exists>rest. node_output n = vi_name v # rest))"
    by simp
  with constants_keep_shape [OF sel, of ?m "\<lambda>_. None" "Symbolic ''N''"]
  have "value_info (graph (snd (change_batch_size (\<lambda>_. None) ?m (Symbolic ''N''))))
      = value_info (graph ?m)"
    by blast
  then show ?thesis by simp
qed

section \<open>The consistency check\<close>

text \<open>
  C4. Let the mutation of the model run to its end and leave the model \<^verbatim>\<open>m2\<close> (this is
  what the call does under an engine that accepts everything). Then under any engine the
  call hands \<^verbatim>\<open>m2\<close>, the whole mutated model, to the engine; when the engine refuses
  it, the call ends with the engine's diagnostic as its exception, and the model is left
  as \<^verbatim>\<open>m2\<close>, not restored.
\<close>

theorem consistency_check_gate:
  assumes "change_batch_size (\<lambda>_. None) m bs = (None, m2)"
  shows "change_batch_size infer_shapes m bs = (map_option InferenceError (infer_shapes m2), m2)"
proof (cases "constant_names (node (graph m))")
  case (Inl e)
  with assms show ?thesis by (simp add: change_batch_size_def)
next
  case (Inr cn)
  obtain r1 g1 where
    rc: "rewrite_chain (set (map name (initializer (graph m))) \<union> cn) bs (graph m) = (r1, g1)"
    by (cases "rewrite_chain (set (map name (initializer (graph m))) \<union> cn) bs (graph m)")
  show ?thesis
  proof (cases r1)
    case (Some e)
    with assms Inr rc show ?thesis by (simp add: change_batch_size_def)
  next
    case None
    show ?thesis
    proof (cases bs)
      case (Fixed n)
      with assms None Inr rc show ?thesis by (simp add: change_batch_size_def)
    next
      case (Symbolic s)
      obtain r2 m' where loop: "reshape_loop (node g1) (m\<lparr>graph := g1\<rparr>) = (r2, m')"
        by (cases "reshape_loop (node g1) (m\<lparr>graph := g1\<rparr>)")
      with assms None Inr rc Symbolic show ?thesis
        by (cases r2) (simp_all add: change_batch_size_def)
    qed
  qed
qed

theorem consistency_check_gate_witness:
  "change_batch_size (\<lambda>_. Some ''bad shape'')
     \<lparr>graph = \<lparr>node = [\<lparr>op_type = ''Reshape'', node_input = [''x'', ''shape0''],
                          node_output = [''y'']\<rparr>],
        initializer = [\<lparr>name = ''shape0'', data_type = INT64, dims = [2], float_data = [],
                         int64_data = [10, 784], raw_data = []\<rparr>],
        value_info = [],
        graph_input = [\<lparr>vi_name = ''x'', elem_type = 1,
                         shape = [\<lparr>dim_oneof = DimValue 10, denotation = []\<rparr>,
                                  \<lparr>dim_oneof = DimValue 784, denotation = []\<rparr>]\<rparr>],
        graph_output = []\<rparr>\<rparr> (Symbolic ''N'')
   = (Some (InferenceError ''bad shape''),
     \<lparr>graph = \<lparr>node = [\<lparr>op_type = ''Reshape'', node_input = [''x'', ''shape0''],
                          node_output = [''y'']\<rparr>],
        initializer = [\<lparr>name = ''shape0'', data_type = INT64, dims = [2], float_data = [],
                         int64_data = [0, 784], raw_data = []\<rparr>],
        value_info = [],
        graph_input = [\<lparr>vi_name = ''x'', elem_type = 1,
                         shape = [\<lparr>dim_oneof = DimParam ''N'', denotation = []\<rparr>,
                                  \<lparr>dim_oneof = DimValue 784, denotation = []\<rparr>]\<rparr>],
        graph_output = []\<rparr>\<rparr>)"
proof -
  let ?m = "\<lparr>graph = \<lparr>node = [\<lparr>op_type = ''Reshape'', node_input = [''x'', ''shape0''],
                          node_output = [''y'']\<rparr>],
        initializer = [\<lparr>name = ''shape0'', data_type = INT64, dims = [2], float_data = [],
                         int64_data = [10, 784], raw_data = []\<rparr>],
        value_info = [],
        graph_input = [\<lparr>vi_name = ''x'', elem_type = 1,
                         shape = [\<lparr>dim_oneof = DimValue 10, denotation = []\<rparr>,
                                  \<lparr>dim_oneof = DimValue 784, denotation = []\<rparr>]\<rparr>],
        graph_output = []\<rparr>\<rparr>"
  let ?m2 = "\<lparr>graph = \<lparr>node = [\<lparr>op_type = ''Reshape'', node_input = [''x'', ''shape0''],
                          node_output = [''y'']\<rparr>],
        initializer = [\<lparr>name = ''shape0'', data_type = INT64, dims = [2], float_data = [],
                         int64_data = [0, 784], raw_data = []\<rparr>],
        value_info = [],
        graph_input = [\<lparr>vi_name = ''x'', elem_type = 1,
                         shape = [\<lparr>dim_oneof = DimParam ''N'', denotation = []\<rparr>,
                                  \<lparr>dim_oneof = DimValue 784, denotation = []\<rparr>]\<rparr>],
        graph_output = []\<rparr>\<rparr>"
  have "change_batch_size (\<lambda>_. None) ?m (Symbolic ''N'') = (None, ?m2)"
    by code_simp
  from consistency_check_gate [OF this, of "\<lambda>_. Some ''bad shape''"]
  show ?thesis by simp
qed

section \<open>The tensor that replaces a target shape\<close>

lemma prod_list_infer:
  "prod_list (map (\<lambda>d. if d < 0 then q else d) ds)
     = q ^ length (filter (\<lambda>d. d < 0) ds) * prod_list (filter (\<lambda>d. (0::int) \<le> d) ds)"
  by (induction ds) auto

lemma prod_list_nonneg: "\<forall>d \<in> set ds. (0::int) \<le> d \<Longrightarrow> 0 \<le> prod_list ds"
  by (induction ds) auto

lemma filter_nonneg_all:
  "filter (\<lambda>d. d < 0) ds = [] \<Longrightarrow> filter (\<lambda>d. (0::int) \<le> d) ds = ds"
  by (induction ds) (auto split: if_splits)

lemma np_reshape_Inr:
  assumes "np_reshape ret ds = Inr v"
  shows "\<exists>shp. v = NDArray shp ret \<and> length shp = length ds
           \<and> (\<forall>d \<in> set shp. 0 \<le> d) \<and> prod_list shp = int (length ret)"
proof (cases "filter (\<lambda>d. d < 0) ds = []")
  case True
  then have all: "filter (\<lambda>d. 0 \<le> d) ds = ds" by (rule filter_nonneg_all)
  from True have "\<forall>d \<in> set ds. 0 \<le> d"
    by (auto simp: filter_empty_conv not_less)
  with assms True all show ?thesis
    by (auto simp: np_reshape_def Let_def split: if_splits)
next
  case False
  let ?k = "prod_list (filter (\<lambda>d. 0 \<le> d) ds)"
  let ?n = "int (length ret)"
  from assms have nl: "\<not> 1 < length (filter (\<lambda>d. d < 0) ds)"
    by (auto simp: np_reshape_def Let_def split: if_splits)
  with False have one: "length (filter (\<lambda>d. d < 0) ds) = 1"
    by (cases "filter (\<lambda>d. d < 0) ds") auto
  from assms False nl have k0: "?k \<noteq> 0" and dvd: "?n mod ?k = 0"
    and v: "v = NDArray (map (\<lambda>d. if d < 0 then ?n div ?k else d) ds) ret"
    by (auto simp: np_reshape_def Let_def split: if_splits)
  have "0 \<le> ?k" by (rule prod_list_nonneg) simp
  with k0 have kpos: "0 < ?k" by simp
  then have q: "0 \<le> ?n div ?k" by (simp add: pos_imp_zdiv_nonneg_iff)
  have "prod_list (map (\<lambda>d. if d < 0 then ?n div ?k else d) ds) = ?n div ?k * ?k"
    by (simp add: prod_list_infer one)
  also have "\<dots> = ?n" using dvd by auto
  finally show ?thesis using v q by auto
qed

lemma np_reshape_same:
  assumes "\<forall>d \<in> set shp. 0 \<le> d" and "prod_list shp = int (length ret)"
  shows "np_reshape ret shp = Inr (NDArray shp ret)"
proof -
  from assms(1) have "filter (\<lambda>d. d < 0) shp = []"
    by (auto simp: filter_empty_conv)
  moreover from this have "filter (\<lambda>d. 0 \<le> d) shp = shp" by (rule filter_nonneg_all)
  ultimately show ?thesis using assms(2) by (simp add: np_reshape_def)
qed

lemma sint_word_of_int_int64:
  "int64_range i \<Longrightarrow> sint (word_of_int i :: int64) = i"
proof -
  assume "int64_range i"
  then have "0 \<le> i + 2 ^ 63" and "i + 2 ^ 63 < 2 ^ 64"
    by (simp_all add: int64_range_def)
  then have "(i + 2 ^ 63) mod 2 ^ 64 = i + 2 ^ 63"
    by (rule mod_pos_pos_trivial)
  then show ?thesis by (simp add: int_word_sint)
qed

lemma float_to_int64_zero: "float_to_int64 0 = 0"
  by (simp add: float_to_int64_def int64_range_def)

lemma astype_int64_zero_like: "astype_int64 (zero_like x) = PyInt 0"
  by (cases x) (simp_all add: float_to_int64_zero)

lemma extend_int64_Inr:
  "extend_int64 vals = Inr ws \<Longrightarrow> map (\<lambda>w. PyInt (sint w)) ws = map astype_int64 vals"
proof (induction vals arbitrary: ws rule: extend_int64.induct)
  case 1
  then show ?case by simp
next
  case (2 f vals)
  from "2.prems" obtain ws' where ws': "extend_int64 vals = Inr ws'"
    and ws: "ws = float_to_int64 f # ws'"
    by (cases "extend_int64 vals") auto
  from "2.IH" [OF ws'] ws show ?case by simp
next
  case (3 i vals)
  from "3.prems" have r: "int64_range i" by (simp split: if_splits)
  with "3.prems" obtain ws' where ws': "extend_int64 vals = Inr ws'" and ws: "ws = word_of_int i # ws'"
    by (cases "extend_int64 vals") auto
  from "3.IH" [OF r ws'] ws r show ?case by (simp add: sint_word_of_int_int64)
qed

lemma extend_int64_sint:
  "extend_int64 (map (\<lambda>w. PyInt (sint w)) ws) = Inr ws"
proof (induction ws)
  case Nil
  then show ?case by simp
next
  case (Cons w ws)
  have "int64_range (sint w)"
    using sint_ge [of w] sint_lt [of w] by (simp add: int64_range_def)
  with Cons show ?case by simp
qed

lemma flat_data_made:
  "flat_data \<lparr>name = nm, data_type = INT64, dims = shp, float_data = [],
              int64_data = ws, raw_data = []\<rparr> = Inr (map (\<lambda>w. PyInt (sint w)) ws)"
  by (simp add: flat_data_def iter_unpack_def FLOAT_def INT64_def)

lemma zero_like_idem: "zero_like (zero_like x) = zero_like x"
  by (cases x) simp_all

lemma setitem_values_idem:
  "map zero_like (take k (map zero_like (take k vals) @ drop k vals))
     @ drop k (map zero_like (take k vals) @ drop k vals)
   = map zero_like (take k vals) @ drop k vals"
proof (cases "k \<le> length vals")
  case True
  then show ?thesis by (simp add: zero_like_idem)
next
  case False
  then show ?thesis by (simp add: zero_like_idem)
qed

lemma setitem_converted_idem:
  "map zero_like (take k (map astype_int64 (map zero_like (take k vals) @ drop k vals)))
     @ drop k (map astype_int64 (map zero_like (take k vals) @ drop k vals))
   = map astype_int64 (map zero_like (take k vals) @ drop k vals)"
proof -
  have z: "zero_like (astype_int64 (zero_like x)) = astype_int64 (zero_like x)" for x
    by (simp add: astype_int64_zero_like)
  show ?thesis
  proof (cases "k \<le> length vals")
    case True
    then show ?thesis by (simp add: z)
  next
    case False
    then show ?thesis by (simp add: z)
  qed
qed

lemma extract_data_NDArray:
  assumes "extract_data t0 = Inr (NDArray shp vals)"
  shows "(\<forall>d \<in> set shp. 0 \<le> d) \<and> prod_list shp = int (length vals)
       \<and> length shp = length (dims t0) \<and> flat_data t0 = Inr vals"
proof -
  from assms obtain ret where ret: "flat_data t0 = Inr ret"
    by (cases "flat_data t0") (auto simp: extract_data_def)
  with assms have "np_reshape ret (dims t0) = Inr (NDArray shp vals)"
    by (auto simp: extract_data_def split: if_splits)
  from np_reshape_Inr [OF this] ret show ?thesis by auto
qed

lemma new_shape_tensor_Inr:
  assumes "new_shape_tensor t0 = Inr t"
  shows "\<exists>d ds vals ws.
           extract_data t0 = Inr (NDArray (d # ds) vals) \<and> d \<noteq> 0
         \<and> extend_int64 (map zero_like (take (nat (prod_list ds)) vals)
                           @ drop (nat (prod_list ds)) vals) = Inr ws
         \<and> t = \<lparr>name = name t0, data_type = INT64, dims = d # ds, float_data = [],
                 int64_data = ws, raw_data = []\<rparr>"
proof -
  from assms obtain v where v: "extract_data t0 = Inr v"
    by (cases "extract_data t0") (auto simp: new_shape_tensor_def)
  with assms obtain shp vals' where s: "setitem0 v = Inr (shp, vals')"
    and mk: "make_tensor_INT64 (name t0) shp vals' = Inr t"
    by (cases "setitem0 v") (auto simp: new_shape_tensor_def)
  from s obtain d ds vals where v': "v = NDArray (d # ds) vals" and d: "d \<noteq> 0"
    and shp: "shp = d # ds"
    and vals': "vals' = map zero_like (take (nat (prod_list ds)) vals)
                         @ drop (nat (prod_list ds)) vals"
    by (auto simp: setitem0_def split: extracted.splits list.splits if_splits)
  from mk obtain ws where "extend_int64 vals' = Inr ws"
    and "t = \<lparr>name = name t0, data_type = INT64, dims = shp, float_data = [],
               int64_data = ws, raw_data = []\<rparr>"
    by (cases "extend_int64 vals'") (auto simp: make_tensor_INT64_def split: if_splits)
  with v v' d shp vals' show ?thesis by blast
qed

lemma new_shape_tensor_idem:
  assumes "new_shape_tensor t0 = Inr t"
  shows "new_shape_tensor t = Inr t"
proof -
  from new_shape_tensor_Inr [OF assms] obtain d ds vals ws where
    ex: "extract_data t0 = Inr (NDArray (d # ds) vals)" and d: "d \<noteq> 0"
    and ws: "extend_int64 (map zero_like (take (nat (prod_list ds)) vals)
                           @ drop (nat (prod_list ds)) vals) = Inr ws"
    and t: "t = \<lparr>name = name t0, data_type = INT64, dims = d # ds, float_data = [],
                 int64_data = ws, raw_data = []\<rparr>"
    by blast
  let ?vals' = "map zero_like (take (nat (prod_list ds)) vals) @ drop (nat (prod_list ds)) vals"
  let ?V = "map astype_int64 ?vals'"
  from extract_data_NDArray [OF ex]
  have nonneg: "\<forall>x \<in> set (d # ds). 0 \<le> x" and prod: "prod_list (d # ds) = int (length vals)"
    by simp_all
  have len: "length ?V = length vals" by simp
  have stored: "map (\<lambda>w. PyInt (sint w)) ws = ?V"
    by (rule extend_int64_Inr [OF ws])
  have flat: "flat_data t = Inr ?V"
    unfolding t flat_data_made stored ..
  have "np_reshape ?V (d # ds) = Inr (NDArray (d # ds) ?V)"
    using nonneg prod len by (intro np_reshape_same) simp_all
  with flat have ex': "extract_data t = Inr (NDArray (d # ds) ?V)"
    by (simp add: extract_data_def t)
  have "setitem0 (NDArray (d # ds) W)
          = Inr (d # ds, map zero_like (take (nat (prod_list ds)) W) @ drop (nat (prod_list ds)) W)"
    for W using d by (simp add: setitem0_def)
  from this [of ?V] have set': "setitem0 (NDArray (d # ds) ?V) = Inr (d # ds, ?V)"
    by (simp only: setitem_converted_idem)
  have "extend_int64 ?V = Inr ws"
    unfolding stored [symmetric] by (rule extend_int64_sint)
  then have "make_tensor_INT64 (name t) (d # ds) ?V = Inr t"
    using prod len by (simp add: make_tensor_INT64_def t)
  with ex' set' show ?thesis by (simp add: new_shape_tensor_def)
qed

section \<open>The loop over the Reshape nodes\<close>

lemma patches_iff:
  "patches n m target \<longleftrightarrow>
     op_type n = ''Reshape'' \<and>
     (\<exists>data rest. node_input n = data # target # rest \<and> find_initializer m data = None)"
  by (auto simp: patches_def split: list.splits)

lemma find_initializer_None:
  "find_initializer m k = None \<longleftrightarrow> k \<notin> set (map name (initializer (graph m)))"
  by (auto simp: find_initializer_def find_None_iff)

lemma find_initializer_None_cong:
  "map name (initializer (graph m')) = map name (initializer (graph m)) \<Longrightarrow>
     (find_initializer m' k = None) = (find_initializer m k = None)"
  by (simp add: find_initializer_None)

lemma patches_cong:
  "map name (initializer (graph m')) = map name (initializer (graph m)) \<Longrightarrow>
     patches n m' k = patches n m k"
  by (simp add: patches_iff find_initializer_None)

lemma find_CopyFrom:
  "name t = nm \<Longrightarrow>
     find (\<lambda>i. name i = k) (CopyFrom nm t inits)
       = (if k = nm then (case find (\<lambda>i. name i = nm) inits of
                            None \<Rightarrow> None | Some _ \<Rightarrow> Some t)
          else find (\<lambda>i. name i = k) inits)"
  by (induction inits) auto

lemma CopyFrom_self:
  "find (\<lambda>i. name i = nm) inits = Some t \<Longrightarrow> CopyFrom nm t inits = inits"
  by (induction inits) (auto split: if_splits)

lemma reshape_step_patches:
  assumes "patches n m target" and "find_initializer m target = Some t0"
  shows "reshape_step n m =
     (case new_shape_tensor t0 of
        Inl e \<Rightarrow> (Some e, m)
      | Inr t \<Rightarrow> (None, m\<lparr>graph := (graph m)
                     \<lparr>initializer := CopyFrom target t (initializer (graph m))\<rparr>\<rparr>))"
  using assms by (auto simp: patches_iff reshape_step_def split: sum.splits)

lemma reshape_step_cases:
  assumes "reshape_step n m = (r, m')"
  shows "m' = m \<or>
     (r = None \<and> (\<exists>target t0 t. patches n m target \<and> find_initializer m target = Some t0
        \<and> new_shape_tensor t0 = Inr t
        \<and> m' = m\<lparr>graph := (graph m)
                 \<lparr>initializer := CopyFrom target t (initializer (graph m))\<rparr>\<rparr>))"
  using assms
  by (auto simp: patches_iff reshape_step_def
      split: if_splits list.splits option.splits sum.splits)

lemma find_initializer_CopyFrom:
  assumes "name t = target"
  shows "find_initializer
           (m\<lparr>graph := (graph m)\<lparr>initializer := CopyFrom target t (initializer (graph m))\<rparr>\<rparr>) k
       = (if k = target then (case find_initializer m target of
                                None \<Rightarrow> None | Some _ \<Rightarrow> Some t)
          else find_initializer m k)"
  using find_CopyFrom [OF assms, of k "initializer (graph m)"]
  by (simp add: find_initializer_def)

lemma reshape_step_find:
  assumes "reshape_step n m = (r, m')"
  shows "find_initializer m' k = find_initializer m k \<or>
     (r = None \<and> patches n m k \<and>
      (\<exists>t0 t. find_initializer m k = Some t0 \<and> new_shape_tensor t0 = Inr t
         \<and> find_initializer m' k = Some t))"
proof -
  from reshape_step_cases [OF assms]
  consider "m' = m"
    | target t0 t where "r = None" "patches n m target" "find_initializer m target = Some t0"
        "new_shape_tensor t0 = Inr t"
        "m' = m\<lparr>graph := (graph m)
                 \<lparr>initializer := CopyFrom target t (initializer (graph m))\<rparr>\<rparr>"
    by blast
  then show ?thesis
  proof cases
    case 1
    then show ?thesis by simp
  next
    case 2
    have nm: "name t = target"
      using new_shape_tensor_name [OF 2(4)] find_initializer_name [OF 2(3)] by simp
    show ?thesis
    proof (cases "k = target")
      case True
      with 2 nm show ?thesis by (simp add: find_initializer_CopyFrom)
    next
      case False
      with 2 nm show ?thesis by (simp add: find_initializer_CopyFrom)
    qed
  qed
qed

lemma reshape_loop_find:
  "reshape_loop ns m = (r, m') \<Longrightarrow> find_initializer m k = Some t0 \<Longrightarrow>
     find_initializer m' k = Some t0 \<or>
     ((\<exists>n \<in> set ns. patches n m k)
      \<and> (\<exists>t. new_shape_tensor t0 = Inr t \<and> find_initializer m' k = Some t))"
proof (induction ns arbitrary: m t0)
  case Nil
  then show ?case by simp
next
  case (Cons a ns)
  obtain r1 m1 where step: "reshape_step a m = (r1, m1)"
    by (cases "reshape_step a m")
  note names = reshape_step_frame [OF step, THEN conjunct2, THEN conjunct2, THEN conjunct2,
      THEN conjunct2]
  from reshape_step_find [OF step, of k] Cons.prems(2)
  consider (same) "find_initializer m1 k = Some t0"
    | (new) t1 where "r1 = None" "patches a m k" "new_shape_tensor t0 = Inr t1"
        "find_initializer m1 k = Some t1"
    by auto
  then show ?case
  proof cases
    case same
    show ?thesis
    proof (cases r1)
      case (Some e)
      with Cons.prems(1) step have "m' = m1" by simp
      with same show ?thesis by simp
    next
      case None
      with Cons.prems(1) step have "reshape_loop ns m1 = (r, m')" by simp
      from Cons.IH [OF this same] show ?thesis
        by (auto simp: patches_cong [OF names])
    qed
  next
    case new
    with Cons.prems(1) step have loop: "reshape_loop ns m1 = (r, m')" by simp
    from Cons.IH [OF loop new(4)] new_shape_tensor_idem [OF new(3)] new(2,3)
    show ?thesis by auto
  qed
qed

lemma reshape_loop_untouched:
  assumes "reshape_loop ns m = (r, m')" and "\<forall>n \<in> set ns. \<not> patches n m k"
  shows "find_initializer m' k = find_initializer m k"
proof (cases "find_initializer m k")
  case None
  from reshape_loop_frame [OF assms(1)]
  have "map name (initializer (graph m')) = map name (initializer (graph m))" by simp
  from find_initializer_None_cong [OF this, of k] None show ?thesis by simp
next
  case (Some t0)
  from reshape_loop_find [OF assms(1) Some] assms(2) Some show ?thesis by auto
qed

lemma reshape_loop_patched:
  "reshape_loop ns m = (None, m') \<Longrightarrow> n \<in> set ns \<Longrightarrow> patches n m k \<Longrightarrow>
     find_initializer m k = Some t0 \<Longrightarrow>
     \<exists>t. new_shape_tensor t0 = Inr t \<and> find_initializer m' k = Some t"
proof (induction ns arbitrary: m t0)
  case Nil
  then show ?case by simp
next
  case (Cons a ns)
  obtain r1 m1 where step: "reshape_step a m = (r1, m1)"
    by (cases "reshape_step a m")
  with Cons.prems(1) have r1: "r1 = None" and loop: "reshape_loop ns m1 = (None, m')"
    by (cases r1; simp)+
  note names = reshape_step_frame [OF step, THEN conjunct2, THEN conjunct2, THEN conjunct2,
      THEN conjunct2]
  show ?case
  proof (cases "patches a m k")
    case True
    from step r1 reshape_step_patches [OF True Cons.prems(4)]
    obtain t1 where t1: "new_shape_tensor t0 = Inr t1"
      and m1: "m1 = m\<lparr>graph := (graph m)
                 \<lparr>initializer := CopyFrom k t1 (initializer (graph m))\<rparr>\<rparr>"
      by (cases "new_shape_tensor t0") auto
    have "name t1 = k"
      using new_shape_tensor_name [OF t1] find_initializer_name [OF Cons.prems(4)] by simp
    with m1 Cons.prems(4) have "find_initializer m1 k = Some t1"
      by (simp add: find_initializer_CopyFrom)
    from reshape_loop_find [OF loop this] new_shape_tensor_idem [OF t1] t1
    show ?thesis by auto
  next
    case False
    with Cons.prems(2,3) have n: "n \<in> set ns" by auto
    from Cons.prems(3) have p1: "patches n m1 k" by (simp add: patches_cong [OF names])
    from reshape_step_find [OF step, of k] False Cons.prems(4)
    have "find_initializer m1 k = Some t0" by auto
    from Cons.IH [OF loop n p1 this] show ?thesis .
  qed
qed

section \<open>The initializers after \<^verbatim>\<open>change_batch_size\<close>\<close>

lemma change_batch_size_loop:
  "\<exists>ns m1 r2. (ns = [] \<or> ns = node (graph m))
     \<and> node (graph m1) = node (graph m) \<and> initializer (graph m1) = initializer (graph m)
     \<and> reshape_loop ns m1 = (r2, snd (change_batch_size chk m bs))"
proof (cases "constant_names (node (graph m))")
  case (Inl e)
  then have "reshape_loop [] m = (None, snd (change_batch_size chk m bs))"
    by (simp add: change_batch_size_def)
  then show ?thesis by blast
next
  case (Inr cn)
  obtain r1 g1 where
    rc: "rewrite_chain (set (map name (initializer (graph m))) \<union> cn) bs (graph m) = (r1, g1)"
    by (cases "rewrite_chain (set (map name (initializer (graph m))) \<union> cn) bs (graph m)")
  note fr = rewrite_chain_frame [OF rc]
  let ?m1 = "m\<lparr>graph := g1\<rparr>"
  have m1: "node (graph ?m1) = node (graph m)" "initializer (graph ?m1) = initializer (graph m)"
    using fr by simp_all
  show ?thesis
  proof (cases r1)
    case (Some e)
    with Inr rc have "reshape_loop [] ?m1 = (None, snd (change_batch_size chk m bs))"
      by (simp add: change_batch_size_def)
    with m1 show ?thesis by blast
  next
    case None
    show ?thesis
    proof (cases bs)
      case (Fixed n)
      with None Inr rc have "reshape_loop [] ?m1 = (None, snd (change_batch_size chk m bs))"
        by (simp add: change_batch_size_def)
      with m1 show ?thesis by blast
    next
      case (Symbolic s)
      obtain r2 m2 where loop: "reshape_loop (node g1) ?m1 = (r2, m2)"
        by (cases "reshape_loop (node g1) ?m1")
      with None Inr rc Symbolic have "snd (change_batch_size chk m bs) = m2"
        by (cases r2) (simp_all add: change_batch_size_def)
      with loop fr have "reshape_loop (node (graph m)) ?m1 = (r2, snd (change_batch_size chk m bs))"
        by simp
      with m1 show ?thesis by blast
    qed
  qed
qed

lemma change_batch_size_Symbolic_success:
  assumes "change_batch_size chk m (Symbolic s) = (None, m')"
  shows "\<exists>cn g1. constant_names (node (graph m)) = Inr cn
     \<and> rewrite_chain (set (map name (initializer (graph m))) \<union> cn) (Symbolic s) (graph m)
         = (None, g1)
     \<and> reshape_loop (node (graph m)) (m\<lparr>graph := g1\<rparr>) = (None, m')
     \<and> chk m' = None"
proof -
  from assms obtain cn where cn: "constant_names (node (graph m)) = Inr cn"
    by (cases "constant_names (node (graph m))") (auto simp: change_batch_size_def)
  obtain r1 g1 where
    rc: "rewrite_chain (set (map name (initializer (graph m))) \<union> cn) (Symbolic s) (graph m)
           = (r1, g1)"
    by (cases "rewrite_chain (set (map name (initializer (graph m))) \<union> cn) (Symbolic s) (graph m)")
  with assms cn have r1: "r1 = None"
    by (cases r1) (simp_all add: change_batch_size_def)
  obtain r2 m2 where loop: "reshape_loop (node g1) (m\<lparr>graph := g1\<rparr>) = (r2, m2)"
    by (cases "reshape_loop (node g1) (m\<lparr>graph := g1\<rparr>)")
  have "change_batch_size chk m (Symbolic s)
          = (case r2 of Some e \<Rightarrow> (Some e, m2)
             | None \<Rightarrow> (map_option InferenceError (chk m2), m2))"
    using cn rc r1 loop by (simp add: change_batch_size_def split: option.split)
  with assms have "r2 = None \<and> m2 = m' \<and> chk m' = None"
    by (cases r2) auto
  moreover have "node g1 = node (graph m)"
    using rewrite_chain_frame [OF rc] by simp
  ultimately have "reshape_loop (node (graph m)) (m\<lparr>graph := g1\<rparr>) = (None, m')"
    and "chk m' = None"
    using loop by simp_all
  with cn rc r1 show ?thesis by blast
qed

text \<open>
  C3, as the code has it. The guard is per node: a Reshape whose first input is an
  initializer is skipped, and nothing else protects the initializer that its second
  input names. So an initializer \<^verbatim>\<open>target\<close> is found unchanged after
  \<^verbatim>\<open>change_batch_size\<close>, for any batch size and however the call ends, when no
  Reshape node with a first input that is not an initializer names \<^verbatim>\<open>target\<close> as
  its second input.
\<close>

theorem reshape_exclusion_amended:
  assumes "\<forall>n \<in> set (node (graph m)). \<not> patches n m target"
  shows "find_initializer (snd (change_batch_size infer_shapes m bs)) target
       = find_initializer m target"
proof -
  from change_batch_size_loop [of m infer_shapes bs] obtain ns m1 r2 where
    ns: "ns = [] \<or> ns = node (graph m)"
    and inits: "initializer (graph m1) = initializer (graph m)"
    and loop: "reshape_loop ns m1 = (r2, snd (change_batch_size infer_shapes m bs))"
    by blast
  from inits have same: "find_initializer m1 k = find_initializer m k" for k
    by (simp add: find_initializer_def)
  from inits have "map name (initializer (graph m1)) = map name (initializer (graph m))"
    by simp
  then have "patches n m1 target = patches n m target" for n
    by (rule patches_cong)
  with assms ns have "\<forall>n \<in> set ns. \<not> patches n m1 target" by auto
  from reshape_loop_untouched [OF loop this] same show ?thesis by simp
qed

theorem reshape_exclusion_amended_witness:
  "find_initializer (snd (change_batch_size (\<lambda>_. None)
     \<lparr>graph = \<lparr>node = [\<lparr>op_type = ''Reshape'', node_input = [''w'', ''shape0''],
                          node_output = [''y'']\<rparr>],
        initializer = [\<lparr>name = ''w'', data_type = FLOAT, dims = [2], float_data = [1, 2],
                         int64_data = [], raw_data = []\<rparr>,
                       \<lparr>name = ''shape0'', data_type = INT64, dims = [2], float_data = [],
                         int64_data = [10, - 1], raw_data = []\<rparr>],
        value_info = [], graph_input = [], graph_output = []\<rparr>\<rparr> (Symbolic ''N''))) ''shape0''
   = Some \<lparr>name = ''shape0'', data_type = INT64, dims = [2], float_data = [],
            int64_data = [10, - 1], raw_data = []\<rparr>"
proof -
  let ?m = "\<lparr>graph = \<lparr>node = [\<lparr>op_type = ''Reshape'', node_input = [''w'', ''shape0''],
                          node_output = [''y'']\<rparr>],
        initializer = [\<lparr>name = ''w'', data_type = FLOAT, dims = [2], float_data = [1, 2],
                         int64_data = [], raw_data = []\<rparr>,
                       \<lparr>name = ''shape0'', data_type = INT64, dims = [2], float_data = [],
                         int64_data = [10, - 1], raw_data = []\<rparr>],
        value_info = [], graph_input = [], graph_output = []\<rparr>\<rparr>"
  have "\<forall>n \<in> set (node (graph ?m)). \<not> patches n ?m ''shape0''"
    by (simp add: patches_def find_initializer_def)
  from reshape_exclusion_amended [OF this, of "\<lambda>_. None" "Symbolic ''N''"]
  show ?thesis by (simp add: find_initializer_def)
qed

text \<open>
  The claim C3 as stated fails when two Reshape nodes share one target shape: the first
  node below has the initializer \<^verbatim>\<open>w\<close> as its first input, and still its target shape
  \<^verbatim>\<open>shape0\<close> is rewritten from \<^verbatim>\<open>[10, -1]\<close> to \<^verbatim>\<open>[0, -1]\<close>, on behalf of the second
  node.
\<close>

theorem reshape_exclusion_counterexample:
  "\<not> (\<forall>n \<in> set (node (graph
     \<lparr>graph = \<lparr>node = [\<lparr>op_type = ''Reshape'', node_input = [''w'', ''shape0''],
                          node_output = [''y'']\<rparr>,
                       \<lparr>op_type = ''Reshape'', node_input = [''x'', ''shape0''],
                          node_output = [''z'']\<rparr>],
        initializer = [\<lparr>name = ''w'', data_type = FLOAT, dims = [2], float_data = [1, 2],
                         int64_data = [], raw_data = []\<rparr>,
                       \<lparr>name = ''shape0'', data_type = INT64, dims = [2], float_data = [],
                         int64_data = [10, - 1], raw_data = []\<rparr>],
        value_info = [], graph_input = [], graph_output = []\<rparr>\<rparr>)).
        op_type n = ''Reshape'' \<and>
        find_initializer
          \<lparr>graph = \<lparr>node = [\<lparr>op_type = ''Reshape'', node_input = [''w'', ''shape0''],
                          node_output = [''y'']\<rparr>,
                       \<lparr>op_type = ''Reshape'', node_input = [''x'', ''shape0''],
                          node_output = [''z'']\<rparr>],
             initializer = [\<lparr>name = ''w'', data_type = FLOAT, dims = [2], float_data = [1, 2],
                         int64_data = [], raw_data = []\<rparr>,
                       \<lparr>name = ''shape0'', data_type = INT64, dims = [2], float_data = [],
                         int64_data = [10, - 1], raw_data = []\<rparr>],
             value_info = [], graph_input = [], graph_output = []\<rparr>\<rparr>
          (node_input n ! 0) \<noteq> None
        \<longrightarrow>
        find_initializer (snd (change_batch_size (\<lambda>_. None)
          \<lparr>graph = \<lparr>node = [\<lparr>op_type = ''Reshape'', node_input = [''w'', ''shape0''],
                          node_output = [''y'']\<rparr>,
                       \<lparr>op_type = ''Reshape'', node_input = [''x'', ''shape0''],
                          node_output = [''z'']\<rparr>],
             initializer = [\<lparr>name = ''w'', data_type = FLOAT, dims = [2], float_data = [1, 2],
                         int64_data = [], raw_data = []\<rparr>,
                       \<lparr>name = ''shape0'', data_type = INT64, dims = [2], float_data = [],
                         int64_data = [10, - 1], raw_data = []\<rparr>],
             value_info = [], graph_input = [], graph_output = []\<rparr>\<rparr> (Symbolic ''N'')))
          (node_input n ! 1)
        = Some \<lparr>name = ''shape0'', data_type = INT64, dims = [2], float_data = [],
                 int64_data = [10, - 1], raw_data = []\<rparr>)"
proof -
  let ?m = "\<lparr>graph = \<lparr>node = [\<lparr>op_type = ''Reshape'', node_input = [''w'', ''shape0''],
                          node_output = [''y'']\<rparr>,
                       \<lparr>op_type = ''Reshape'', node_input = [''x'', ''shape0''],
                          node_output = [''z'']\<rparr>],
        initializer = [\<lparr>name = ''w'', data_type = FLOAT, dims = [2], float_data = [1, 2],
                         int64_data = [], raw_data = []\<rparr>,
                       \<lparr>name = ''shape0'', data_type = INT64, dims = [2], float_data = [],
                         int64_data = [10, - 1], raw_data = []\<rparr>],
        value_info = [], graph_input = [], graph_output = []\<rparr>\<rparr>"
  have after: "find_initializer (snd (change_batch_size (\<lambda>_. None) ?m (Symbolic ''N''))) ''shape0''
      = Some \<lparr>name = ''shape0'', data_type = INT64, dims = [2], float_data = [],
               int64_data = [0, - 1], raw_data = []\<rparr>"
    by code_simp
  show ?thesis
    by (simp add: after) (simp add: find_initializer_def)
qed







section \<open>Running the rewrite twice\<close>

lemma set_dim0_Symbolic:
  "\<exists>v'. set_dim0 (Symbolic s) v = Inr v' \<and> vi_name v' = vi_name v
        \<and> set_dim0 (Symbolic s) v' = Inr v'"
  by (cases "shape v") (simp_all add: set_dim0_def)

lemma rewrite_value_infos_idem:
  "rewrite_value_infos skip (Symbolic s) (snd (rewrite_value_infos skip (Symbolic s) vis))
     = (None, snd (rewrite_value_infos skip (Symbolic s) vis))"
proof (induction vis)
  case Nil
  then show ?case by simp
next
  case (Cons v vis)
  obtain r vis' where rest: "rewrite_value_infos skip (Symbolic s) vis = (r, vis')"
    by (cases "rewrite_value_infos skip (Symbolic s) vis")
  with Cons have again: "rewrite_value_infos skip (Symbolic s) vis' = (None, vis')" by simp
  show ?case
  proof (cases "vi_name v \<in> skip")
    case True
    with rest again show ?thesis by simp
  next
    case False
    from set_dim0_Symbolic [of s v] obtain v' where
      "set_dim0 (Symbolic s) v = Inr v'" "vi_name v' = vi_name v"
      "set_dim0 (Symbolic s) v' = Inr v'"
      by blast
    with False rest again show ?thesis by simp
  qed
qed

lemma rewrite_chain_idem:
  assumes "rewrite_chain skip (Symbolic s) g = (None, g1)"
  shows "rewrite_chain skip (Symbolic s) g1 = (None, g1)"
proof -
  have ok: "case Symbolic s of Symbolic s \<Rightarrow> True | Fixed n \<Rightarrow> int64_range n" by simp
  from assms rewrite_chain_ok [OF ok, of skip g]
  have g1: "g1 = g\<lparr>value_info := snd (rewrite_value_infos skip (Symbolic s) (value_info g)),
              graph_input := snd (rewrite_value_infos skip (Symbolic s) (graph_input g)),
              graph_output := snd (rewrite_value_infos skip (Symbolic s) (graph_output g))\<rparr>"
    by simp
  show ?thesis
    unfolding rewrite_chain_ok [OF ok, of skip g1]
    by (simp add: g1 rewrite_value_infos_idem)
qed

lemma reshape_step_inputs:
  assumes "reshape_step n m = (None, m1)" and "op_type n = ''Reshape''"
  shows "\<exists>data rest. node_input n = data # rest
           \<and> (find_initializer m data \<noteq> None \<or> rest \<noteq> [])"
  using assms by (auto simp: reshape_step_def split: list.splits if_splits)

lemma reshape_loop_inputs:
  "reshape_loop ns m = (None, m') \<Longrightarrow> n \<in> set ns \<Longrightarrow> op_type n = ''Reshape'' \<Longrightarrow>
     \<exists>data rest. node_input n = data # rest
        \<and> (find_initializer m data \<noteq> None \<or> rest \<noteq> [])"
proof (induction ns arbitrary: m)
  case Nil
  then show ?case by simp
next
  case (Cons a ns)
  obtain r1 m1 where step: "reshape_step a m = (r1, m1)"
    by (cases "reshape_step a m")
  with Cons.prems(1) have r1: "r1 = None" and loop: "reshape_loop ns m1 = (None, m')"
    by (cases r1; simp)+
  note names = reshape_step_frame [OF step, THEN conjunct2, THEN conjunct2, THEN conjunct2,
      THEN conjunct2]
  show ?case
  proof (cases "n = a")
    case True
    with step r1 Cons.prems(3) show ?thesis by (auto dest: reshape_step_inputs)
  next
    case False
    with Cons.prems(2) have "n \<in> set ns" by simp
    from Cons.IH [OF loop this Cons.prems(3)] find_initializer_None_cong [OF names]
    show ?thesis by auto
  qed
qed

lemma reshape_loop_fixed:
  assumes loop: "reshape_loop ns m = (None, m')" and n: "n \<in> set ns"
  shows "reshape_step n m' = (None, m')"
proof (cases "op_type n = ''Reshape''")
  case False
  then show ?thesis by (simp add: reshape_step_def)
next
  case True
  from reshape_loop_frame [OF loop]
  have names: "map name (initializer (graph m')) = map name (initializer (graph m))" by simp
  note cong = find_initializer_None_cong [OF names]
  from reshape_loop_inputs [OF loop n True] obtain data rest where
    inp: "node_input n = data # rest"
    and ok: "find_initializer m data \<noteq> None \<or> rest \<noteq> []"
    by blast
  show ?thesis
  proof (cases "find_initializer m data = None")
    case False
    with cong [of data] inp True show ?thesis by (auto simp: reshape_step_def)
  next
    case data_free: True
    with ok obtain target rest' where rest: "rest = target # rest'"
      by (cases rest) auto
    show ?thesis
    proof (cases "find_initializer m target")
      case None
      with cong [of target] cong [of data] None inp rest True \<open>find_initializer m data = None\<close>
      show ?thesis by (auto simp: reshape_step_def)
    next
      case (Some t0)
      from True inp rest \<open>find_initializer m data = None\<close> have p: "patches n m target"
        by (simp add: patches_iff)
      from reshape_loop_patched [OF loop n p Some] obtain t where
        t: "new_shape_tensor t0 = Inr t" and f: "find_initializer m' target = Some t"
        by blast
      from p have p': "patches n m' target" by (simp add: patches_cong [OF names])
      from f have "CopyFrom target t (initializer (graph m')) = initializer (graph m')"
        by (intro CopyFrom_self) (simp add: find_initializer_def)
      with reshape_step_patches [OF p' f] new_shape_tensor_idem [OF t]
      show ?thesis by simp
    qed
  qed
qed

lemma reshape_loop_all_fixed:
  "\<forall>n \<in> set ns. reshape_step n m = (None, m) \<Longrightarrow> reshape_loop ns m = (None, m)"
  by (induction ns) simp_all

lemma reshape_loop_idem:
  "reshape_loop ns m = (None, m') \<Longrightarrow> reshape_loop ns m' = (None, m')"
  by (intro reshape_loop_all_fixed ballI) (rule reshape_loop_fixed)

text \<open>
  C10. With a symbolic batch size the rewrite is idempotent: when a call returns and
  leaves the model \<^verbatim>\<open>m'\<close>, a second call on \<^verbatim>\<open>m'\<close> with the same name returns too and
  leaves \<^verbatim>\<open>m'\<close> as it is. (The shape-inference engine, a function of the model, sees
  the same model both times.)
\<close>

theorem change_batch_size_idempotent:
  assumes "change_batch_size infer_shapes m (Symbolic s) = (None, m')"
  shows "change_batch_size infer_shapes m' (Symbolic s) = (None, m')"
proof -
  let ?bs = "Symbolic s"
  let ?skip = "\<lambda>cn. set (map name (initializer (graph m))) \<union> cn"
  from change_batch_size_Symbolic_success [OF assms] obtain cn g1 where
    cn: "constant_names (node (graph m)) = Inr cn"
    and rc: "rewrite_chain (?skip cn) ?bs (graph m) = (None, g1)"
    and loop: "reshape_loop (node (graph m)) (m\<lparr>graph := g1\<rparr>) = (None, m')"
    and chk: "infer_shapes m' = None"
    by blast
  have ok: "case ?bs of Symbolic s \<Rightarrow> True | Fixed n \<Rightarrow> int64_range n" by simp
  from rc rewrite_chain_ok [OF ok, of "?skip cn" "graph m"]
  have g1: "g1 = (graph m)\<lparr>value_info := snd (rewrite_value_infos (?skip cn) ?bs (value_info (graph m))),
              graph_input := snd (rewrite_value_infos (?skip cn) ?bs (graph_input (graph m))),
              graph_output := snd (rewrite_value_infos (?skip cn) ?bs (graph_output (graph m)))\<rparr>"
    by simp
  from reshape_loop_frame [OF loop] g1
  have nodes: "node (graph m') = node (graph m)"
    and names: "map name (initializer (graph m')) = map name (initializer (graph m))"
    and vi: "value_info (graph m') = snd (rewrite_value_infos (?skip cn) ?bs (value_info (graph m)))"
    and gi: "graph_input (graph m') = snd (rewrite_value_infos (?skip cn) ?bs (graph_input (graph m)))"
    and go: "graph_output (graph m') = snd (rewrite_value_infos (?skip cn) ?bs (graph_output (graph m)))"
    by simp_all
  have "snd (rewrite_value_infos (?skip cn) ?bs (value_info (graph m'))) = value_info (graph m')"
    and "snd (rewrite_value_infos (?skip cn) ?bs (graph_input (graph m'))) = graph_input (graph m')"
    and "snd (rewrite_value_infos (?skip cn) ?bs (graph_output (graph m'))) = graph_output (graph m')"
    unfolding vi gi go by (simp_all add: rewrite_value_infos_idem)
  with rewrite_chain_ok [OF ok, of "?skip cn" "graph m'"]
  have rc': "rewrite_chain (?skip cn) ?bs (graph m') = (None, graph m')"
    by simp
  have loop': "reshape_loop (node (graph m')) m' = (None, m')"
    using reshape_loop_idem [OF loop] nodes by simp
  have skip': "set (map name (initializer (graph m'))) = set (map name (initializer (graph m)))"
    by (simp only: names)
  have cn': "constant_names (node (graph m')) = Inr cn"
    by (simp only: nodes cn)
  show ?thesis
    unfolding change_batch_size_def Let_def
    by (simp only: cn' skip' rc' sum.case prod.case option.case batch_size.case)
       (simp add: loop' chk)
qed

theorem change_batch_size_idempotent_witness:
  "change_batch_size (\<lambda>_. None)
     \<lparr>graph = \<lparr>node = [\<lparr>op_type = ''Reshape'', node_input = [''x'', ''shape0''],
                          node_output = [''y'']\<rparr>],
        initializer = [\<lparr>name = ''shape0'', data_type = INT64, dims = [2], float_data = [],
                         int64_data = [0, 784], raw_data = []\<rparr>],
        value_info = [],
        graph_input = [\<lparr>vi_name = ''x'', elem_type = 1,
                         shape = [\<lparr>dim_oneof = DimParam ''N'', denotation = []\<rparr>,
                                  \<lparr>dim_oneof = DimValue 1, denotation = []\<rparr>,
                                  \<lparr>dim_oneof = DimValue 28, denotation = []\<rparr>,
                                  \<lparr>dim_oneof = DimValue 28, denotation = []\<rparr>]\<rparr>],
        graph_output = []\<rparr>\<rparr> (Symbolic ''N'')
   = (None,
     \<lparr>graph = \<lparr>node = [\<lparr>op_type = ''Reshape'', node_input = [''x'', ''shape0''],
                          node_output = [''y'']\<rparr>],
        initializer = [\<lparr>name = ''shape0'', data_type = INT64, dims = [2], float_data = [],
                         int64_data = [0, 784], raw_data = []\<rparr>],
        value_info = [],
        graph_input = [\<lparr>vi_name = ''x'', elem_type = 1,
                         shape = [\<lparr>dim_oneof = DimParam ''N'', denotation = []\<rparr>,
                                  \<lparr>dim_oneof = DimValue 1, denotation = []\<rparr>,
                                  \<lparr>dim_oneof = DimValue 28, denotation = []\<rparr>,
                                  \<lparr>dim_oneof = DimValue 28, denotation = []\<rparr>]\<rparr>],
        graph_output = []\<rparr>\<rparr>)"
proof -
  let ?m = "\<lparr>graph = \<lparr>node = [\<lparr>op_type = ''Reshape'', node_input = [''x'', ''shape0''],
                          node_output = [''y'']\<rparr>],
        initializer = [\<lparr>name = ''shape0'', data_type = INT64, dims = [2], float_data = [],
                         int64_data = [10, 784], raw_data = []\<rparr>],
        value_info = [],
        graph_input = [\<lparr>vi_name = ''x'', elem_type = 1,
                         shape = [\<lparr>dim_oneof = DimValue 10, denotation = []\<rparr>,
                                  \<lparr>dim_oneof = DimValue 1, denotation = []\<rparr>,
                                  \<lparr>dim_oneof = DimValue 28, denotation = []\<rparr>,
                                  \<lparr>dim_oneof = DimValue 28, denotation = []\<rparr>]\<rparr>],
        graph_output = []\<rparr>\<rparr>"
  let ?m' = "\<lparr>graph = \<lparr>node = [\<lparr>op_type = ''Reshape'', node_input = [''x'', ''shape0''],
                          node_output = [''y'']\<rparr>],
        initializer = [\<lparr>name = ''shape0'', data_type = INT64, dims = [2], float_data = [],
                         int64_data = [0, 784], raw_data = []\<rparr>],
        value_info = [],
        graph_input = [\<lparr>vi_name = ''x'', elem_type = 1,
                         shape = [\<lparr>dim_oneof = DimParam ''N'', denotation = []\<rparr>,
                                  \<lparr>dim_oneof = DimValue 1, denotation = []\<rparr>,
                                  \<lparr>dim_oneof = DimValue 28, denotation = []\<rparr>,
                                  \<lparr>dim_oneof = DimValue 28, denotation = []\<rparr>]\<rparr>],
        graph_output = []\<rparr>\<rparr>"
  have "change_batch_size (\<lambda>_. None) ?m (Symbolic ''N'') = (None, ?m')"
    by code_simp
  then show ?thesis
    by (rule change_batch_size_idempotent)
qed

end
